theory Spec2Isabelle
  imports Main "HOL-Library.Sublist"
begin

section \<open>JavaScript values, thrown values and the request environment\<close>

text \<open>
  The values that flow through the server: the argument bag of a call-tool request, the
  results of the upstream client and whatever ends up in \<open>state.currentDomain\<close>.
  An object is a plain object (its prototype is \<open>Object.prototype\<close>), written as an
  association list in property order. The server never computes with a number: it passes
  it on or prints it. A number is therefore carried as the decimal text that
  \<open>Number.prototype.toString\<close> gives for it (\<open>0.5\<close>, \<open>-420\<close>, \<open>1e+21\<close>, \<open>NaN\<close>).
\<close>

datatype jsval =
    JUndefined
  | JNull
  | JBool bool
  | JNum string
  | JStr string
  | JArr "jsval list"
  | JObj "(string \<times> jsval) list"

type_synonym obj = "(string \<times> jsval) list"

text \<open>Property read \<open>args.k\<close>: \<open>undefined\<close> when the object has no such property.\<close>

definition field :: "obj \<Rightarrow> string \<Rightarrow> jsval" where
  "field args k = (case map_of args k of None \<Rightarrow> JUndefined | Some v \<Rightarrow> v)"

text \<open>The rest pattern \<open>{ k: _, ...data }\<close>: every own property except \<open>k\<close>, in order.\<close>

definition rest_without :: "string \<Rightarrow> obj \<Rightarrow> obj" where
  "rest_without k args = filter (\<lambda>kv. fst kv \<noteq> k) args"

text \<open>\<open>Array.prototype.join\<close> on strings.\<close>

fun join :: "string \<Rightarrow> string list \<Rightarrow> string" where
  "join sep [] = []"
| "join sep [x] = x"
| "join sep (x # y # ys) = x @ sep @ join sep (y # ys)"

text \<open>
  What a \<open>throw\<close> can carry. The runtime raises a \<open>TypeError\<close> at four places of the
  server; its wording belongs to the JavaScript engine and is a parameter of the model.
\<close>

datatype type_error =
    DestructureUndefined string
  | ReadPropertyOfUndefined string
  | NotIterable
  | CannotConvertToPrimitive

datatype thrown =
    TypeError type_error
  | Error string
  | NonError jsval

text \<open>
  String conversion, as a template literal and \<open>String(v)\<close> perform it. An array joins
  the conversions of its elements with commas, \<open>null\<close> and \<open>undefined\<close> elements giving
  the empty string. A plain object is converted by its \<open>toString\<close> method: without an
  own property of that name it inherits the one that answers \<open>[object Object]\<close>; with
  one, the property is data and cannot be called, \<open>valueOf\<close> (own or inherited) yields
  no primitive either, and the conversion throws a \<open>TypeError\<close>.
\<close>

fun toString :: "jsval \<Rightarrow> thrown + string"
  and elements_toString :: "jsval list \<Rightarrow> thrown + string list" where
  "toString JUndefined = Inr ''undefined''"
| "toString JNull = Inr ''null''"
| "toString (JBool b) = Inr (if b then ''true'' else ''false'')"
| "toString (JNum n) = Inr n"
| "toString (JStr s) = Inr s"
| "toString (JArr xs) =
     (case elements_toString xs of Inl e \<Rightarrow> Inl e | Inr ss \<Rightarrow> Inr (join '','' ss))"
| "toString (JObj kvs) =
     (if ''toString'' \<in> fst ` set kvs then Inl (TypeError CannotConvertToPrimitive)
      else Inr ''[object Object]'')"
| "elements_toString [] = Inr []"
| "elements_toString (x # xs) =
     (case (if x = JUndefined \<or> x = JNull then Inr [] else toString x) of
        Inl e \<Rightarrow> Inl e
      | Inr s \<Rightarrow>
          (case elements_toString xs of Inl e \<Rightarrow> Inl e | Inr ss \<Rightarrow> Inr (s # ss)))"

text \<open>
  One call of the upstream client, \<open>client.<resource>.<operation>(arguments)\<close>, and the
  client itself: what each call resolves to, or what it rejects with.
\<close>

datatype resource = Companies | Contacts | Products | Opportunities | Quotes

datatype operation = ListOp | GetOp | CreateOp | UpdateOp | DeleteOp

datatype upstream_call = Call resource operation "jsval list"

type_synonym client = "upstream_call \<Rightarrow> thrown + jsval"

text \<open>
  Everything outside the server that one request depends on: the environment variable,
  the dynamic import and constructor of the client package (\<open>None\<close> when either fails),
  \<open>JSON.stringify(_, null, 2)\<close>, which returns a string or \<open>undefined\<close> (here \<open>None\<close>) or
  throws, and the engine's wording of a \<open>TypeError\<close>.
\<close>

record world =
  SALESBUILDR_API_KEY :: "string option"
  load_client :: "string \<Rightarrow> client option"
  JSON_stringify :: "jsval \<Rightarrow> thrown + string option"
  type_error_message :: "type_error \<Rightarrow> string"

section \<open>utils/client.ts\<close>

definition getCredentials :: "world \<Rightarrow> thrown + string" where
  "getCredentials w =
     (case SALESBUILDR_API_KEY w of
        None \<Rightarrow> Inl (Error (''SALESBUILDR_API_KEY environment variable is required. '' @
                  ''Set it to your SalesBuildr API key from your account settings.''))
      | Some apiKey \<Rightarrow>
          if apiKey = [] then
            Inl (Error (''SALESBUILDR_API_KEY environment variable is required. '' @
                  ''Set it to your SalesBuildr API key from your account settings.''))
          else Inr apiKey)"

text \<open>
  \<open>getClient\<close> reads and fills the module variable \<open>_client\<close>: the variable is passed in
  and returned.
\<close>

definition getClient :: "world \<Rightarrow> client option \<Rightarrow> client option \<times> (thrown + client)" where
  "getClient w cached =
     (case cached of
        Some c \<Rightarrow> (cached, Inr c)
      | None \<Rightarrow>
          (case getCredentials w of
             Inl e \<Rightarrow> (None, Inl e)
           | Inr creds \<Rightarrow>
               (case load_client w creds of
                  None \<Rightarrow>
                    (None, Inl (Error (''@wyre-technology/node-salesbuildr is not installed. '' @
                       ''Install it with: npm install @wyre-technology/node-salesbuildr'')))
                | Some c \<Rightarrow> (Some c, Inr c))))"

definition resetClient :: "client option \<Rightarrow> client option" where
  "resetClient cached = None"

section \<open>The response envelope and the domain handlers\<close>

text \<open>
  A content block \<open>{type: "text", text: t}\<close>. The text is \<open>None\<close> when the expression that
  computes it yields \<open>undefined\<close>.
\<close>

datatype content_block = TextBlock (block_text: "string option")

record envelope =
  content :: "content_block list"
  isError :: "bool option"

text \<open>
  A handler call yields the new \<open>_client\<close>, the upstream calls it made, in order, and
  either the envelope it returns or the value it throws.
\<close>

type_synonym outcome = "client option \<times> upstream_call list \<times> (thrown + envelope)"

text \<open>
  The pattern every list, get, create and update case follows: await one upstream call,
  return its result as JSON text.
\<close>

definition json_reply :: "world \<Rightarrow> client \<Rightarrow> upstream_call \<Rightarrow> upstream_call list \<times> (thrown + envelope)" where
  "json_reply w c call =
     ([call],
      case c call of
        Inl e \<Rightarrow> Inl e
      | Inr result \<Rightarrow>
          (case JSON_stringify w result of
             Inl e \<Rightarrow> Inl e
           | Inr t \<Rightarrow> Inr \<lparr>content = [TextBlock t], isError = None\<rparr>))"

text \<open>
  The delete cases: await the call, then build the sentence that names the id. The
  template literal converts the id to a string after the call has been made.
\<close>

definition delete_reply :: "client \<Rightarrow> resource \<Rightarrow> string \<Rightarrow> jsval \<Rightarrow> upstream_call list \<times> (thrown + envelope)" where
  "delete_reply c r noun ident =
     ([Call r DeleteOp [ident]],
      case c (Call r DeleteOp [ident]) of
        Inl e \<Rightarrow> Inl e
      | Inr _ \<Rightarrow>
          (case toString ident of
             Inl e \<Rightarrow> Inl e
           | Inr s \<Rightarrow>
               Inr \<lparr>content = [TextBlock (Some (noun @ '' '' @ s @ '' deleted successfully.''))],
                    isError = None\<rparr>))"

definition handleCompanyTool :: "world \<Rightarrow> client option \<Rightarrow> string \<Rightarrow> obj \<Rightarrow> outcome" where
  "handleCompanyTool w cached nm args =
     (case getClient w cached of
        (cached', Inl e) \<Rightarrow> (cached', [], Inl e)
      | (cached', Inr c) \<Rightarrow>
          (cached',
           if nm = ''salesbuildr_companies_list'' then
             json_reply w c (Call Companies ListOp
               [JObj [(''query'', field args ''query''), (''from'', field args ''from''),
                      (''size'', field args ''size'')]])
           else if nm = ''salesbuildr_companies_get'' then
             json_reply w c (Call Companies GetOp [field args ''id''])
           else if nm = ''salesbuildr_companies_create'' then
             json_reply w c (Call Companies CreateOp [JObj (rest_without ''id'' args)])
           else if nm = ''salesbuildr_companies_update'' then
             json_reply w c (Call Companies UpdateOp
               [field args ''id'', JObj (rest_without ''id'' args)])
           else if nm = ''salesbuildr_companies_delete'' then
             delete_reply c Companies ''Company'' (field args ''id'')
           else
             ([], Inr \<lparr>content = [TextBlock (Some (''Unknown company tool: '' @ nm))],
                       isError = Some True\<rparr>)))"

definition handleContactTool :: "world \<Rightarrow> client option \<Rightarrow> string \<Rightarrow> obj \<Rightarrow> outcome" where
  "handleContactTool w cached nm args =
     (case getClient w cached of
        (cached', Inl e) \<Rightarrow> (cached', [], Inl e)
      | (cached', Inr c) \<Rightarrow>
          (cached',
           if nm = ''salesbuildr_contacts_list'' then
             json_reply w c (Call Contacts ListOp
               [JObj [(''query'', field args ''query''), (''companyId'', field args ''companyId''),
                      (''from'', field args ''from''), (''size'', field args ''size'')]])
           else if nm = ''salesbuildr_contacts_get'' then
             json_reply w c (Call Contacts GetOp [field args ''id''])
           else if nm = ''salesbuildr_contacts_create'' then
             json_reply w c (Call Contacts CreateOp [JObj (rest_without ''id'' args)])
           else if nm = ''salesbuildr_contacts_update'' then
             json_reply w c (Call Contacts UpdateOp
               [field args ''id'', JObj (rest_without ''id'' args)])
           else if nm = ''salesbuildr_contacts_delete'' then
             delete_reply c Contacts ''Contact'' (field args ''id'')
           else
             ([], Inr \<lparr>content = [TextBlock (Some (''Unknown contact tool: '' @ nm))],
                       isError = Some True\<rparr>)))"

definition handleProductTool :: "world \<Rightarrow> client option \<Rightarrow> string \<Rightarrow> obj \<Rightarrow> outcome" where
  "handleProductTool w cached nm args =
     (case getClient w cached of
        (cached', Inl e) \<Rightarrow> (cached', [], Inl e)
      | (cached', Inr c) \<Rightarrow>
          (cached',
           if nm = ''salesbuildr_products_list'' then
             json_reply w c (Call Products ListOp
               [JObj [(''query'', field args ''query''), (''from'', field args ''from''),
                      (''size'', field args ''size'')]])
           else if nm = ''salesbuildr_products_get'' then
             json_reply w c (Call Products GetOp [field args ''id''])
           else
             ([], Inr \<lparr>content = [TextBlock (Some (''Unknown product tool: '' @ nm))],
                       isError = Some True\<rparr>)))"

definition handleOpportunityTool :: "world \<Rightarrow> client option \<Rightarrow> string \<Rightarrow> obj \<Rightarrow> outcome" where
  "handleOpportunityTool w cached nm args =
     (case getClient w cached of
        (cached', Inl e) \<Rightarrow> (cached', [], Inl e)
      | (cached', Inr c) \<Rightarrow>
          (cached',
           if nm = ''salesbuildr_opportunities_list'' then
             json_reply w c (Call Opportunities ListOp
               [JObj [(''query'', field args ''query''), (''from'', field args ''from''),
                      (''size'', field args ''size'')]])
           else if nm = ''salesbuildr_opportunities_get'' then
             json_reply w c (Call Opportunities GetOp [field args ''id''])
           else if nm = ''salesbuildr_opportunities_create'' then
             json_reply w c (Call Opportunities CreateOp [JObj (rest_without ''id'' args)])
           else if nm = ''salesbuildr_opportunities_update'' then
             json_reply w c (Call Opportunities UpdateOp
               [field args ''id'', JObj (rest_without ''id'' args)])
           else
             ([], Inr \<lparr>content = [TextBlock (Some (''Unknown opportunity tool: '' @ nm))],
                       isError = Some True\<rparr>)))"

definition handleQuoteTool :: "world \<Rightarrow> client option \<Rightarrow> string \<Rightarrow> obj \<Rightarrow> outcome" where
  "handleQuoteTool w cached nm args =
     (case getClient w cached of
        (cached', Inl e) \<Rightarrow> (cached', [], Inl e)
      | (cached', Inr c) \<Rightarrow>
          (cached',
           if nm = ''salesbuildr_quotes_list'' then
             json_reply w c (Call Quotes ListOp
               [JObj [(''query'', field args ''query''), (''companyId'', field args ''companyId''),
                      (''opportunityId'', field args ''opportunityId''),
                      (''from'', field args ''from''), (''size'', field args ''size'')]])
           else if nm = ''salesbuildr_quotes_get'' then
             json_reply w c (Call Quotes GetOp [field args ''id''])
           else if nm = ''salesbuildr_quotes_create'' then
             json_reply w c (Call Quotes CreateOp [JObj (rest_without ''id'' args)])
           else
             ([], Inr \<lparr>content = [TextBlock (Some (''Unknown quote tool: '' @ nm))],
                       isError = Some True\<rparr>)))"

section \<open>index.ts: tool tables, session state, list-tools and call-tool\<close>

text \<open>
  A tool descriptor. Its description and input schema are static data that no function
  of the server reads; the descriptor is represented by its name.
\<close>

record tool =
  name :: string

definition companyTools :: "tool list" where
  "companyTools =
     [\<lparr>name = ''salesbuildr_companies_list''\<rparr>, \<lparr>name = ''salesbuildr_companies_get''\<rparr>,
      \<lparr>name = ''salesbuildr_companies_create''\<rparr>, \<lparr>name = ''salesbuildr_companies_update''\<rparr>,
      \<lparr>name = ''salesbuildr_companies_delete''\<rparr>]"

definition contactTools :: "tool list" where
  "contactTools =
     [\<lparr>name = ''salesbuildr_contacts_list''\<rparr>, \<lparr>name = ''salesbuildr_contacts_get''\<rparr>,
      \<lparr>name = ''salesbuildr_contacts_create''\<rparr>, \<lparr>name = ''salesbuildr_contacts_update''\<rparr>,
      \<lparr>name = ''salesbuildr_contacts_delete''\<rparr>]"

definition productTools :: "tool list" where
  "productTools =
     [\<lparr>name = ''salesbuildr_products_list''\<rparr>, \<lparr>name = ''salesbuildr_products_get''\<rparr>]"

definition opportunityTools :: "tool list" where
  "opportunityTools =
     [\<lparr>name = ''salesbuildr_opportunities_list''\<rparr>, \<lparr>name = ''salesbuildr_opportunities_get''\<rparr>,
      \<lparr>name = ''salesbuildr_opportunities_create''\<rparr>,
      \<lparr>name = ''salesbuildr_opportunities_update''\<rparr>]"

definition quoteTools :: "tool list" where
  "quoteTools =
     [\<lparr>name = ''salesbuildr_quotes_list''\<rparr>, \<lparr>name = ''salesbuildr_quotes_get''\<rparr>,
      \<lparr>name = ''salesbuildr_quotes_create''\<rparr>]"

definition navigateTool :: tool where
  "navigateTool = \<lparr>name = ''salesbuildr_navigate''\<rparr>"

definition backTool :: tool where
  "backTool = \<lparr>name = ''salesbuildr_back''\<rparr>"

text \<open>The members of the type \<open>Domain\<close>, which are also the enum of the navigation schema.\<close>

definition domains :: "string list" where
  "domains = [''companies'', ''contacts'', ''products'', ''opportunities'', ''quotes'']"

text \<open>
  \<open>currentDomain\<close> is declared \<open>Domain | null\<close>, but nothing checks that at run time: the
  field holds whatever value is assigned to it.
\<close>

record ServerState =
  currentDomain :: jsval

definition initial_state :: ServerState where
  "initial_state = \<lparr>currentDomain = JNull\<rparr>"

text \<open>
  The switch of \<open>getDomainTools\<close> has no default: on any other value the function
  falls off its end and returns \<open>undefined\<close>, here \<open>None\<close>.
\<close>

definition getDomainTools :: "jsval \<Rightarrow> tool list option" where
  "getDomainTools domain =
     (if domain = JStr ''companies'' then Some companyTools
      else if domain = JStr ''contacts'' then Some contactTools
      else if domain = JStr ''products'' then Some productTools
      else if domain = JStr ''opportunities'' then Some opportunityTools
      else if domain = JStr ''quotes'' then Some quoteTools
      else None)"

text \<open>The list-tools handler. Spreading \<open>undefined\<close> throws; nothing catches it here.\<close>

definition listTools :: "ServerState \<Rightarrow> thrown + tool list" where
  "listTools s =
     (if currentDomain s = JNull then Inr [navigateTool]
      else
        (case getDomainTools (currentDomain s) of
           None \<Rightarrow> Inl (TypeError NotIterable)
         | Some domainTools \<Rightarrow> Inr (backTool # domainTools)))"

definition startsWith :: "string \<Rightarrow> string \<Rightarrow> bool" where
  "startsWith s p = prefix p s"

text \<open>
  The two module variables a call-tool request can touch: \<open>state\<close> of index.ts and
  \<open>_client\<close> of utils/client.ts.
\<close>

record memory =
  state :: ServerState
  cached_client :: "client option"

definition delegate :: "memory \<Rightarrow> outcome \<Rightarrow> memory \<times> upstream_call list \<times> (thrown + envelope)" where
  "delegate m r = (case r of (cached', calls, res) \<Rightarrow> (m\<lparr>cached_client := cached'\<rparr>, calls, res))"

text \<open>
  The body of the \<open>try\<close> block of the call-tool handler. \<open>args\<close> is \<open>None\<close> when the request
  has no \<open>arguments\<close>. An assignment made before a throw stays made.
\<close>

definition callTool_try ::
  "world \<Rightarrow> memory \<Rightarrow> string \<Rightarrow> obj option \<Rightarrow> memory \<times> upstream_call list \<times> (thrown + envelope)" where
  "callTool_try w m nm args =
     (if nm = ''salesbuildr_navigate'' then
        (case args of
           None \<Rightarrow> (m, [], Inl (TypeError (DestructureUndefined ''domain'')))
         | Some a \<Rightarrow>
             (let domain = field a ''domain'';
                  m' = m\<lparr>state := (state m)\<lparr>currentDomain := domain\<rparr>\<rparr>
              in case getDomainTools domain of
                   None \<Rightarrow> (m', [], Inl (TypeError (ReadPropertyOfUndefined ''map'')))
                 | Some domainTools \<Rightarrow>
                     (let toolNames = join '', '' (map name domainTools)
                      in case toString domain of
                           Inl e \<Rightarrow> (m', [], Inl e)
                         | Inr d \<Rightarrow>
                             (m', [],
                              Inr \<lparr>content = [TextBlock (Some (''Navigated to '' @ d @
                                      '' domain. Available tools: '' @ toolNames))],
                                   isError = None\<rparr>))))
      else if nm = ''salesbuildr_back'' then
        (m\<lparr>state := (state m)\<lparr>currentDomain := JNull\<rparr>\<rparr>, [],
         Inr \<lparr>content = [TextBlock (Some (''Returned to domain selection. Use salesbuildr_navigate '' @
                 ''to select a domain: companies, contacts, products, opportunities, quotes''))],
              isError = None\<rparr>)
      else
        (let toolArgs = (case args of None \<Rightarrow> [] | Some a \<Rightarrow> a)
         in if startsWith nm ''salesbuildr_companies_'' then
              delegate m (handleCompanyTool w (cached_client m) nm toolArgs)
            else if startsWith nm ''salesbuildr_contacts_'' then
              delegate m (handleContactTool w (cached_client m) nm toolArgs)
            else if startsWith nm ''salesbuildr_products_'' then
              delegate m (handleProductTool w (cached_client m) nm toolArgs)
            else if startsWith nm ''salesbuildr_opportunities_'' then
              delegate m (handleOpportunityTool w (cached_client m) nm toolArgs)
            else if startsWith nm ''salesbuildr_quotes_'' then
              delegate m (handleQuoteTool w (cached_client m) nm toolArgs)
            else
              (m, [],
               Inr \<lparr>content = [TextBlock (Some (''Unknown tool: '' @ nm @
                       ''. Use salesbuildr_navigate to select a domain first.''))],
                    isError = Some True\<rparr>)))"

text \<open>
  \<open>error instanceof Error ? error.message : String(error)\<close>, evaluated in the \<open>catch\<close>
  block. \<open>String\<close> throws on a value it cannot convert.
\<close>

definition error_message :: "world \<Rightarrow> thrown \<Rightarrow> thrown + string" where
  "error_message w error =
     (case error of
        TypeError t \<Rightarrow> Inr (type_error_message w t)
      | Error msg \<Rightarrow> Inr msg
      | NonError v \<Rightarrow> toString v)"

text \<open>
  The call-tool handler: the \<open>try\<close> block and its \<open>catch\<close>. Nothing surrounds the \<open>catch\<close>
  block: what is thrown there leaves the handler, which then rejects (\<open>Inl\<close>) instead of
  returning an envelope.
\<close>

definition callTool ::
  "world \<Rightarrow> memory \<Rightarrow> string \<Rightarrow> obj option \<Rightarrow> memory \<times> upstream_call list \<times> (thrown + envelope)" where
  "callTool w m nm args =
     (case callTool_try w m nm args of
        (m', calls, Inr response) \<Rightarrow> (m', calls, Inr response)
      | (m', calls, Inl error) \<Rightarrow>
          (case error_message w error of
             Inl e \<Rightarrow> (m', calls, Inl e)
           | Inr message \<Rightarrow>
               (m', calls,
                Inr \<lparr>content = [TextBlock (Some (''Error: '' @ message))],
                     isError = Some True\<rparr>)))"

text \<open>
  A session: call-tool requests handled one after the other, each in the environment it
  arrives in, the memory of one request being that left by the request before.
\<close>

type_synonym request = "world \<times> string \<times> obj option"

fun run :: "memory \<Rightarrow> request list \<Rightarrow> memory" where
  "run m [] = m"
| "run m ((w, nm, args) # rs) = run (fst (callTool w m nm args)) rs"

definition fresh :: memory where
  "fresh = \<lparr>state = initial_state, cached_client = None\<rparr>"

section \<open>Concrete environments and derived notions used in the statements\<close>

text \<open>
  An environment in which everything works: the key is set, the package loads, every
  upstream call resolves (a delete to \<open>undefined\<close>, any other call to the empty object),
  and type errors are worded in the manner of V8. Of \<open>JSON.stringify\<close> only the two
  values this client resolves to matter: \<open>undefined\<close> gives \<open>undefined\<close> and the empty
  object gives the text \<open>{}\<close>.
\<close>

definition example_client :: client where
  "example_client call =
     (case call of Call r op argv \<Rightarrow> if op = DeleteOp then Inr JUndefined else Inr (JObj []))"

definition example_world :: world where
  "example_world =
     \<lparr>SALESBUILDR_API_KEY = Some ''sk-test'',
      load_client = (\<lambda>apiKey. Some example_client),
      JSON_stringify = (\<lambda>v. if v = JUndefined then Inr None else Inr (Some ''{}'')),
      type_error_message = (\<lambda>t. case t of
          DestructureUndefined p \<Rightarrow>
            ''Cannot destructure property '' @ [CHR 0x27] @ p @ [CHR 0x27] @ '' of '' @
            [CHR 0x27] @ ''args'' @ [CHR 0x27] @ '' as it is undefined.''
        | ReadPropertyOfUndefined p \<Rightarrow>
            ''Cannot read properties of undefined (reading '' @ [CHR 0x27] @ p @ [CHR 0x27] @ '')''
        | NotIterable \<Rightarrow> ''undefined is not iterable''
        | CannotConvertToPrimitive \<Rightarrow> ''Cannot convert object to primitive value'')\<rparr>"

text \<open>The same environment with the key missing: \<open>getClient\<close> throws there.\<close>

definition keyless_world :: world where
  "keyless_world = example_world\<lparr>SALESBUILDR_API_KEY := None\<rparr>"

text \<open>
  The same environment with a client whose every call rejects with the plain object
  \<open>{toString: "x"}\<close>, which is not an \<open>Error\<close>.
\<close>

definition rejecting_client :: client where
  "rejecting_client call = Inl (NonError (JObj [(''toString'', JStr ''x'')]))"

definition rejecting_world :: world where
  "rejecting_world = example_world\<lparr>load_client := (\<lambda>apiKey. Some rejecting_client)\<rparr>"

text \<open>
  The state invariant of the navigation machine: \<open>currentDomain\<close> is \<open>null\<close> or one of
  the five domain identifiers.
\<close>

definition domain_or_null :: "ServerState \<Rightarrow> bool" where
  "domain_or_null s = (currentDomain s = JNull \<or> currentDomain s \<in> JStr ` set domains)"

text \<open>
  A request respects the navigation tool's input schema when, if it is a navigate call
  with an argument bag, the bag's \<open>domain\<close> is one of the enumerated identifiers.
\<close>

fun respects_schema :: "request \<Rightarrow> bool" where
  "respects_schema (w, nm, args) =
     (if nm = ''salesbuildr_navigate'' then
        (case args of None \<Rightarrow> True | Some a \<Rightarrow> field a ''domain'' \<in> JStr ` set domains)
      else True)"

text \<open>The names of all tools the server registers.\<close>

definition registered_names :: "string list" where
  "registered_names =
     map name (navigateTool # backTool #
       companyTools @ contactTools @ productTools @ opportunityTools @ quoteTools)"

section \<open>Routing lemmas\<close>

text \<open>
  A name with one of the five prefixes is neither reserved name and has none of the other
  prefixes, so the chain of \<open>startsWith\<close> tests reaches exactly one handler.
\<close>

lemma startsWith_neq: "startsWith nm p \<Longrightarrow> \<not> prefix p q \<Longrightarrow> nm \<noteq> q"
  by (auto simp: startsWith_def)

lemma startsWith_other:
  "startsWith nm p \<Longrightarrow> \<not> prefix p q \<Longrightarrow> \<not> prefix q p \<Longrightarrow> \<not> startsWith nm q"
  unfolding startsWith_def using prefix_same_cases by blast

lemma dispatch_companies:
  assumes "startsWith nm ''salesbuildr_companies_''"
  shows "callTool_try w m nm args =
           delegate m (handleCompanyTool w (cached_client m) nm (case args of None \<Rightarrow> [] | Some a \<Rightarrow> a))"
proof -
  have "nm \<noteq> ''salesbuildr_navigate''" "nm \<noteq> ''salesbuildr_back''"
    by (rule startsWith_neq [OF assms], simp)+
  then show ?thesis using assms by (simp add: callTool_try_def)
qed

lemma dispatch_contacts:
  assumes "startsWith nm ''salesbuildr_contacts_''"
  shows "callTool_try w m nm args =
           delegate m (handleContactTool w (cached_client m) nm (case args of None \<Rightarrow> [] | Some a \<Rightarrow> a))"
proof -
  have "nm \<noteq> ''salesbuildr_navigate''" "nm \<noteq> ''salesbuildr_back''"
    by (rule startsWith_neq [OF assms], simp)+
  moreover have "\<not> startsWith nm ''salesbuildr_companies_''"
    by (rule startsWith_other [OF assms]; simp)
  ultimately show ?thesis using assms by (simp add: callTool_try_def)
qed

lemma dispatch_products:
  assumes "startsWith nm ''salesbuildr_products_''"
  shows "callTool_try w m nm args =
           delegate m (handleProductTool w (cached_client m) nm (case args of None \<Rightarrow> [] | Some a \<Rightarrow> a))"
proof -
  have "nm \<noteq> ''salesbuildr_navigate''" "nm \<noteq> ''salesbuildr_back''"
    by (rule startsWith_neq [OF assms], simp)+
  moreover have "\<not> startsWith nm ''salesbuildr_companies_''" "\<not> startsWith nm ''salesbuildr_contacts_''"
    by (rule startsWith_other [OF assms]; simp)+
  ultimately show ?thesis using assms by (simp add: callTool_try_def)
qed

lemma dispatch_opportunities:
  assumes "startsWith nm ''salesbuildr_opportunities_''"
  shows "callTool_try w m nm args =
           delegate m (handleOpportunityTool w (cached_client m) nm (case args of None \<Rightarrow> [] | Some a \<Rightarrow> a))"
proof -
  have "nm \<noteq> ''salesbuildr_navigate''" "nm \<noteq> ''salesbuildr_back''"
    by (rule startsWith_neq [OF assms], simp)+
  moreover have "\<not> startsWith nm ''salesbuildr_companies_''" "\<not> startsWith nm ''salesbuildr_contacts_''"
    "\<not> startsWith nm ''salesbuildr_products_''"
    by (rule startsWith_other [OF assms]; simp)+
  ultimately show ?thesis using assms by (simp add: callTool_try_def)
qed

lemma dispatch_quotes:
  assumes "startsWith nm ''salesbuildr_quotes_''"
  shows "callTool_try w m nm args =
           delegate m (handleQuoteTool w (cached_client m) nm (case args of None \<Rightarrow> [] | Some a \<Rightarrow> a))"
proof -
  have "nm \<noteq> ''salesbuildr_navigate''" "nm \<noteq> ''salesbuildr_back''"
    by (rule startsWith_neq [OF assms], simp)+
  moreover have "\<not> startsWith nm ''salesbuildr_companies_''" "\<not> startsWith nm ''salesbuildr_contacts_''"
    "\<not> startsWith nm ''salesbuildr_products_''" "\<not> startsWith nm ''salesbuildr_opportunities_''"
    by (rule startsWith_other [OF assms]; simp)+
  ultimately show ?thesis using assms by (simp add: callTool_try_def)
qed

lemma callTool_returned:
  "callTool_try w m nm args = (m', calls, Inr response) \<Longrightarrow>
   callTool w m nm args = (m', calls, Inr response)"
  by (simp add: callTool_def)

lemma delegate_ignores_state:
  "snd (delegate (m\<lparr>state := s\<rparr>) r) = snd (delegate m r)"
  by (cases r) (simp add: delegate_def)

lemma callTool_snd:
  "snd (callTool w m nm args) =
     (case snd (callTool_try w m nm args) of
        (calls, Inr response) \<Rightarrow> (calls, Inr response)
      | (calls, Inl e) \<Rightarrow>
          (case error_message w e of
             Inl e' \<Rightarrow> (calls, Inl e')
           | Inr message \<Rightarrow>
               (calls, Inr \<lparr>content = [TextBlock (Some (''Error: '' @ message))],
                            isError = Some True\<rparr>)))"
  by (cases "callTool_try w m nm args") (auto simp: callTool_def split: sum.splits)

lemma callTool_memory: "fst (callTool w m nm args) = fst (callTool_try w m nm args)"
  by (cases "callTool_try w m nm args") (auto simp: callTool_def split: sum.splits)

lemma delegate_keeps_state: "state (fst (delegate m r)) = state m"
  by (cases r) (simp add: delegate_def)

lemma other_tools_keep_state:
  assumes "nm \<noteq> ''salesbuildr_navigate''" and "nm \<noteq> ''salesbuildr_back''"
  shows "state (fst (callTool w m nm args)) = state m"
proof -
  have "state (fst (callTool_try w m nm args)) = state m"
    using assms by (simp add: callTool_try_def delegate_keeps_state Let_def)
  then show ?thesis
    by (cases "callTool_try w m nm args") (auto simp: callTool_def split: sum.splits)
qed

section \<open>Stateless dispatch\<close>

text \<open>
  Claim C4. A tool name that starts with the namespace prefix of a registered domain is
  handed to that domain's handler together with the request's arguments (the empty
  object when the request has none), whatever the session state is: the \<open>try\<close> block is
  the handler call, an envelope the handler returns is the router's answer unchanged, and
  replacing \<open>state\<close> by any other value changes neither the upstream calls nor the
  answer.
\<close>

theorem prefix_dispatch:
  assumes "(p, handler) \<in> set
      [(''salesbuildr_companies_'', handleCompanyTool),
       (''salesbuildr_contacts_'', handleContactTool),
       (''salesbuildr_products_'', handleProductTool),
       (''salesbuildr_opportunities_'', handleOpportunityTool),
       (''salesbuildr_quotes_'', handleQuoteTool)]"
    and "startsWith nm p"
  shows "callTool_try w m nm args =
           delegate m (handler w (cached_client m) nm (case args of None \<Rightarrow> [] | Some a \<Rightarrow> a)) \<and>
         (\<forall>c calls response.
            handler w (cached_client m) nm (case args of None \<Rightarrow> [] | Some a \<Rightarrow> a) =
              (c, calls, Inr response) \<longrightarrow>
            callTool w m nm args = (m\<lparr>cached_client := c\<rparr>, calls, Inr response)) \<and>
         (\<forall>s. snd (callTool w (m\<lparr>state := s\<rparr>) nm args) = snd (callTool w m nm args))"
proof -
  have d: "\<And>m. callTool_try w m nm args =
           delegate m (handler w (cached_client m) nm (case args of None \<Rightarrow> [] | Some a \<Rightarrow> a))"
    using assms
    by (auto simp: dispatch_companies dispatch_contacts dispatch_products
        dispatch_opportunities dispatch_quotes)
  have r: "callTool w m nm args = (m\<lparr>cached_client := c\<rparr>, calls, Inr response)"
    if "handler w (cached_client m) nm (case args of None \<Rightarrow> [] | Some a \<Rightarrow> a) =
              (c, calls, Inr response)" for c calls response
    by (rule callTool_returned) (simp add: d that delegate_def)
  have s: "snd (callTool w (m\<lparr>state := s\<rparr>) nm args) = snd (callTool w m nm args)" for s
    by (simp add: callTool_snd d delegate_ignores_state)
  from d r s show ?thesis by blast
qed

theorem prefix_dispatch_witness:
  "(''salesbuildr_companies_'', handleCompanyTool) \<in> set
      [(''salesbuildr_companies_'', handleCompanyTool),
       (''salesbuildr_contacts_'', handleContactTool),
       (''salesbuildr_products_'', handleProductTool),
       (''salesbuildr_opportunities_'', handleOpportunityTool),
       (''salesbuildr_quotes_'', handleQuoteTool)] \<and>
   startsWith ''salesbuildr_companies_get'' ''salesbuildr_companies_'' \<and>
   handleCompanyTool example_world None ''salesbuildr_companies_get'' [(''id'', JStr ''7'')] =
     (Some example_client, [Call Companies GetOp [JStr ''7'']],
      Inr \<lparr>content = [TextBlock (Some ''{}'')], isError = None\<rparr>) \<and>
   callTool example_world (fresh\<lparr>state := \<lparr>currentDomain = JStr ''contacts''\<rparr>\<rparr>)
       ''salesbuildr_companies_get'' (Some [(''id'', JStr ''7'')]) =
     (\<lparr>state = \<lparr>currentDomain = JStr ''contacts''\<rparr>, cached_client = Some example_client\<rparr>,
      [Call Companies GetOp [JStr ''7'']],
      Inr \<lparr>content = [TextBlock (Some ''{}'')], isError = None\<rparr>)"
proof -
  let ?m = "fresh\<lparr>state := \<lparr>currentDomain = JStr ''contacts''\<rparr>\<rparr>"
  have h1: "(''salesbuildr_companies_'', handleCompanyTool) \<in> set
      [(''salesbuildr_companies_'', handleCompanyTool),
       (''salesbuildr_contacts_'', handleContactTool),
       (''salesbuildr_products_'', handleProductTool),
       (''salesbuildr_opportunities_'', handleOpportunityTool),
       (''salesbuildr_quotes_'', handleQuoteTool)]"
    by simp
  have h2: "startsWith ''salesbuildr_companies_get'' ''salesbuildr_companies_''"
    by (simp add: startsWith_def)
  have h3: "handleCompanyTool example_world None ''salesbuildr_companies_get'' [(''id'', JStr ''7'')] =
     (Some example_client, [Call Companies GetOp [JStr ''7'']],
      Inr \<lparr>content = [TextBlock (Some ''{}'')], isError = None\<rparr>)"
    by (simp add: handleCompanyTool_def getClient_def getCredentials_def example_world_def
        json_reply_def example_client_def field_def)
  have c: "cached_client ?m = None"
    by (simp add: fresh_def)
  from prefix_dispatch [OF h1 h2, of example_world ?m "Some [(''id'', JStr ''7'')]"] h3
  have "callTool example_world ?m ''salesbuildr_companies_get'' (Some [(''id'', JStr ''7'')]) =
     (?m\<lparr>cached_client := Some example_client\<rparr>, [Call Companies GetOp [JStr ''7'']],
      Inr \<lparr>content = [TextBlock (Some ''{}'')], isError = None\<rparr>)"
    by (simp add: c)
  then have "callTool example_world ?m ''salesbuildr_companies_get'' (Some [(''id'', JStr ''7'')]) =
     (\<lparr>state = \<lparr>currentDomain = JStr ''contacts''\<rparr>, cached_client = Some example_client\<rparr>,
      [Call Companies GetOp [JStr ''7'']],
      Inr \<lparr>content = [TextBlock (Some ''{}'')], isError = None\<rparr>)"
    by (simp add: fresh_def)
  with h1 h2 h3 show ?thesis by blast
qed

section \<open>Unknown tools and the frame of the session state\<close>

text \<open>
  Claim C7. A name that is neither \<open>salesbuildr_navigate\<close> nor \<open>salesbuildr_back\<close> and starts
  with none of the five domain prefixes is answered by an error envelope: \<open>isError\<close> is
  true, the single text block names the tool and tells the caller to navigate first.
  No upstream call is made and the memory, \<open>currentDomain\<close> included, is as before.
\<close>

theorem unknown_tool:
  assumes "nm \<noteq> ''salesbuildr_navigate''" and "nm \<noteq> ''salesbuildr_back''"
    and "\<not> startsWith nm ''salesbuildr_companies_''"
    and "\<not> startsWith nm ''salesbuildr_contacts_''"
    and "\<not> startsWith nm ''salesbuildr_products_''"
    and "\<not> startsWith nm ''salesbuildr_opportunities_''"
    and "\<not> startsWith nm ''salesbuildr_quotes_''"
  shows "callTool w m nm args =
           (m, [],
            Inr \<lparr>content = [TextBlock (Some (''Unknown tool: '' @ nm @
                ''. Use salesbuildr_navigate to select a domain first.''))],
             isError = Some True\<rparr>)"
  using assms by (simp add: callTool_def callTool_try_def)

theorem unknown_tool_witness:
  "callTool example_world (fresh\<lparr>state := \<lparr>currentDomain = JStr ''quotes''\<rparr>\<rparr>)
       ''salesbuildr_quote_list'' (Some []) =
     (fresh\<lparr>state := \<lparr>currentDomain = JStr ''quotes''\<rparr>\<rparr>, [],
      Inr \<lparr>content = [TextBlock (Some (''Unknown tool: salesbuildr_quote_list. '' @
          ''Use salesbuildr_navigate to select a domain first.''))],
       isError = Some True\<rparr>)"
proof -
  have h: "''salesbuildr_quote_list'' \<noteq> ''salesbuildr_navigate''"
    "''salesbuildr_quote_list'' \<noteq> ''salesbuildr_back''"
    "\<not> startsWith ''salesbuildr_quote_list'' ''salesbuildr_companies_''"
    "\<not> startsWith ''salesbuildr_quote_list'' ''salesbuildr_contacts_''"
    "\<not> startsWith ''salesbuildr_quote_list'' ''salesbuildr_products_''"
    "\<not> startsWith ''salesbuildr_quote_list'' ''salesbuildr_opportunities_''"
    "\<not> startsWith ''salesbuildr_quote_list'' ''salesbuildr_quotes_''"
    by (simp_all add: startsWith_def)
  show ?thesis
    using unknown_tool [OF h, of example_world
        "fresh\<lparr>state := \<lparr>currentDomain = JStr ''quotes''\<rparr>\<rparr>" "Some []"]
    by simp
qed

text \<open>
  Claim C10. A call-tool request whose name is neither \<open>salesbuildr_navigate\<close> nor
  \<open>salesbuildr_back\<close> leaves \<open>state\<close>, and with it \<open>currentDomain\<close>, exactly as it was,
  in every environment: whether the handler returns, the client or the upstream call
  throws, or the name is unknown to the handler or to the router.
\<close>

theorem only_navigation_mutates:
  assumes "nm \<noteq> ''salesbuildr_navigate''" and "nm \<noteq> ''salesbuildr_back''"
  shows "state (fst (callTool w m nm args)) = state m"
  by (rule other_tools_keep_state [OF assms])

theorem only_navigation_mutates_witness:
  "''salesbuildr_companies_delete'' \<noteq> ''salesbuildr_navigate'' \<and>
   ''salesbuildr_companies_delete'' \<noteq> ''salesbuildr_back'' \<and>
   state (fst (callTool keyless_world (fresh\<lparr>state := \<lparr>currentDomain = JStr ''contacts''\<rparr>\<rparr>)
     ''salesbuildr_companies_delete'' (Some [(''id'', JStr ''7'')]))) =
   \<lparr>currentDomain = JStr ''contacts''\<rparr>"
proof -
  have h: "''salesbuildr_companies_delete'' \<noteq> ''salesbuildr_navigate''"
    "''salesbuildr_companies_delete'' \<noteq> ''salesbuildr_back''"
    by simp_all
  show ?thesis
    using h only_navigation_mutates [OF h, of keyless_world
        "fresh\<lparr>state := \<lparr>currentDomain = JStr ''contacts''\<rparr>\<rparr>" "Some [(''id'', JStr ''7'')]"]
    by simp
qed

section \<open>Navigation\<close>

lemma getDomainTools_registered:
  assumes "(d, ts) \<in> set
      [(''companies'', companyTools), (''contacts'', contactTools),
       (''products'', productTools), (''opportunities'', opportunityTools),
       (''quotes'', quoteTools)]"
  shows "getDomainTools (JStr d) = Some ts"
  using assms by (auto simp: getDomainTools_def)

lemma navigate_registered:
  assumes "getDomainTools (JStr d) = Some ts" and "field a ''domain'' = JStr d"
  shows "callTool w m ''salesbuildr_navigate'' (Some a) =
           (m\<lparr>state := (state m)\<lparr>currentDomain := JStr d\<rparr>\<rparr>, [],
            Inr \<lparr>content = [TextBlock (Some (''Navigated to '' @ d @ '' domain. Available tools: '' @
                join '', '' (map name ts)))],
             isError = None\<rparr>)"
  using assms by (simp add: callTool_def callTool_try_def)

lemma back_result:
  "callTool w m ''salesbuildr_back'' args =
     (m\<lparr>state := (state m)\<lparr>currentDomain := JNull\<rparr>\<rparr>, [],
      Inr \<lparr>content = [TextBlock (Some (''Returned to domain selection. Use salesbuildr_navigate '' @
            ''to select a domain: companies, contacts, products, opportunities, quotes''))],
       isError = None\<rparr>)"
  by (simp add: callTool_def callTool_try_def)

lemma listTools_at:
  assumes "getDomainTools (JStr d) = Some ts" "currentDomain s = JStr d"
  shows "listTools s = Inr (backTool # ts)"
  using assms by (simp add: listTools_def)

text \<open>
  Claim C3. In a fresh session list-tools returns the navigation tool and nothing else.
  From any memory, a navigate call whose \<open>domain\<close> argument is a registered domain \<open>d\<close>
  makes list-tools return the back tool followed by the tool table of \<open>d\<close>, in the
  table's order; a back call after it makes list-tools return the navigation tool alone
  again.
\<close>

theorem navigation_round_trip:
  assumes "(d, ts) \<in> set
      [(''companies'', companyTools), (''contacts'', contactTools),
       (''products'', productTools), (''opportunities'', opportunityTools),
       (''quotes'', quoteTools)]"
    and "field a ''domain'' = JStr d"
  shows "listTools (state fresh) = Inr [navigateTool] \<and>
         listTools (state (fst (callTool w m ''salesbuildr_navigate'' (Some a)))) =
           Inr (backTool # ts) \<and>
         listTools (state (fst (callTool w' (fst (callTool w m ''salesbuildr_navigate'' (Some a)))
           ''salesbuildr_back'' args'))) = Inr [navigateTool]"
proof -
  have g: "getDomainTools (JStr d) = Some ts"
    by (rule getDomainTools_registered [OF assms(1)])
  have "listTools (state fresh) = Inr [navigateTool]"
    by (simp add: fresh_def initial_state_def listTools_def)
  moreover have "listTools (state (fst (callTool w m ''salesbuildr_navigate'' (Some a)))) =
           Inr (backTool # ts)"
    by (simp add: navigate_registered [OF g assms(2)] listTools_at [OF g])
  moreover have "listTools (state (fst (callTool w' (fst (callTool w m ''salesbuildr_navigate'' (Some a)))
           ''salesbuildr_back'' args'))) = Inr [navigateTool]"
    by (simp add: back_result listTools_def)
  ultimately show ?thesis by blast
qed

theorem navigation_round_trip_witness:
  "(''quotes'', quoteTools) \<in> set
      [(''companies'', companyTools), (''contacts'', contactTools),
       (''products'', productTools), (''opportunities'', opportunityTools),
       (''quotes'', quoteTools)] \<and>
   field [(''domain'', JStr ''quotes'')] ''domain'' = JStr ''quotes'' \<and>
   listTools (state fresh) = Inr [navigateTool] \<and>
   listTools (state (fst (callTool example_world fresh ''salesbuildr_navigate''
       (Some [(''domain'', JStr ''quotes'')])))) =
     Inr [\<lparr>name = ''salesbuildr_back''\<rparr>, \<lparr>name = ''salesbuildr_quotes_list''\<rparr>,
          \<lparr>name = ''salesbuildr_quotes_get''\<rparr>, \<lparr>name = ''salesbuildr_quotes_create''\<rparr>] \<and>
   listTools (state (fst (callTool example_world
       (fst (callTool example_world fresh ''salesbuildr_navigate''
          (Some [(''domain'', JStr ''quotes'')])))
       ''salesbuildr_back'' (Some [])))) = Inr [navigateTool]"
proof -
  have h1: "(''quotes'', quoteTools) \<in> set
      [(''companies'', companyTools), (''contacts'', contactTools),
       (''products'', productTools), (''opportunities'', opportunityTools),
       (''quotes'', quoteTools)]"
    by simp
  have h2: "field [(''domain'', JStr ''quotes'')] ''domain'' = JStr ''quotes''"
    by (simp add: field_def)
  show ?thesis
    using h1 h2 navigation_round_trip [OF h1 h2, of example_world fresh example_world "Some []"]
    by (simp add: backTool_def quoteTools_def)
qed

lemma tool_tables_disjoint:
  "set companyTools \<inter> set contactTools = {}"
  "set companyTools \<inter> set productTools = {}"
  "set companyTools \<inter> set opportunityTools = {}"
  "set companyTools \<inter> set quoteTools = {}"
  "set contactTools \<inter> set companyTools = {}"
  "set contactTools \<inter> set productTools = {}"
  "set contactTools \<inter> set opportunityTools = {}"
  "set contactTools \<inter> set quoteTools = {}"
  "set productTools \<inter> set companyTools = {}"
  "set productTools \<inter> set contactTools = {}"
  "set productTools \<inter> set opportunityTools = {}"
  "set productTools \<inter> set quoteTools = {}"
  "set opportunityTools \<inter> set companyTools = {}"
  "set opportunityTools \<inter> set contactTools = {}"
  "set opportunityTools \<inter> set productTools = {}"
  "set opportunityTools \<inter> set quoteTools = {}"
  "set quoteTools \<inter> set companyTools = {}"
  "set quoteTools \<inter> set contactTools = {}"
  "set quoteTools \<inter> set productTools = {}"
  "set quoteTools \<inter> set opportunityTools = {}"
  "backTool \<notin> set companyTools"
  "backTool \<notin> set contactTools"
  "backTool \<notin> set productTools"
  "backTool \<notin> set opportunityTools"
  "backTool \<notin> set quoteTools"
  by (simp_all add: companyTools_def contactTools_def productTools_def opportunityTools_def
      quoteTools_def backTool_def)

lemma registry_cases:
  assumes "(d, ts) \<in> set
      [(''companies'', companyTools), (''contacts'', contactTools),
       (''products'', productTools), (''opportunities'', opportunityTools),
       (''quotes'', quoteTools)]"
  shows "d = ''companies'' \<and> ts = companyTools \<or> d = ''contacts'' \<and> ts = contactTools \<or>
         d = ''products'' \<and> ts = productTools \<or> d = ''opportunities'' \<and> ts = opportunityTools \<or>
         d = ''quotes'' \<and> ts = quoteTools"
  using assms by simp

lemma tables_apart:
  assumes "(A, tsA) \<in> set
      [(''companies'', companyTools), (''contacts'', contactTools),
       (''products'', productTools), (''opportunities'', opportunityTools),
       (''quotes'', quoteTools)]"
    and "(B, tsB) \<in> set
      [(''companies'', companyTools), (''contacts'', contactTools),
       (''products'', productTools), (''opportunities'', opportunityTools),
       (''quotes'', quoteTools)]"
    and "A \<noteq> B"
  shows "set tsA \<inter> set (backTool # tsB) = {}"
  using registry_cases [OF assms(1)] registry_cases [OF assms(2)] assms(3)
  by (elim disjE conjE) (simp_all add: tool_tables_disjoint)

text \<open>
  Claim C8. For distinct registered domains \<open>A\<close> and \<open>B\<close>, navigate(A) followed by
  navigate(B) leaves \<open>currentDomain\<close> at \<open>B\<close>; list-tools then returns the back tool
  followed by the table of \<open>B\<close>, and no tool of \<open>A\<close> is in that list.
\<close>

theorem domain_switch:
  assumes "(A, tsA) \<in> set
      [(''companies'', companyTools), (''contacts'', contactTools),
       (''products'', productTools), (''opportunities'', opportunityTools),
       (''quotes'', quoteTools)]"
    and "(B, tsB) \<in> set
      [(''companies'', companyTools), (''contacts'', contactTools),
       (''products'', productTools), (''opportunities'', opportunityTools),
       (''quotes'', quoteTools)]"
    and "A \<noteq> B"
    and "field a ''domain'' = JStr A" and "field b ''domain'' = JStr B"
  shows "currentDomain (state (fst (callTool w' (fst (callTool w m ''salesbuildr_navigate'' (Some a)))
            ''salesbuildr_navigate'' (Some b)))) = JStr B \<and>
         listTools (state (fst (callTool w' (fst (callTool w m ''salesbuildr_navigate'' (Some a)))
            ''salesbuildr_navigate'' (Some b)))) = Inr (backTool # tsB) \<and>
         set tsA \<inter> set (backTool # tsB) = {}"
proof -
  have gA: "getDomainTools (JStr A) = Some tsA"
    by (rule getDomainTools_registered [OF assms(1)])
  have gB: "getDomainTools (JStr B) = Some tsB"
    by (rule getDomainTools_registered [OF assms(2)])
  let ?m = "fst (callTool w' (fst (callTool w m ''salesbuildr_navigate'' (Some a)))
            ''salesbuildr_navigate'' (Some b))"
  have cur: "currentDomain (state ?m) = JStr B"
    by (simp add: navigate_registered [OF gB assms(5)])
  have vis: "listTools (state ?m) = Inr (backTool # tsB)"
    by (rule listTools_at [OF gB cur])
  have dis: "set tsA \<inter> set (backTool # tsB) = {}"
    by (rule tables_apart [OF assms(1,2,3)])
  from cur vis dis show ?thesis by blast
qed

theorem domain_switch_witness:
  "(''companies'', companyTools) \<in> set
      [(''companies'', companyTools), (''contacts'', contactTools),
       (''products'', productTools), (''opportunities'', opportunityTools),
       (''quotes'', quoteTools)] \<and>
   (''products'', productTools) \<in> set
      [(''companies'', companyTools), (''contacts'', contactTools),
       (''products'', productTools), (''opportunities'', opportunityTools),
       (''quotes'', quoteTools)] \<and>
   ''companies'' \<noteq> ''products'' \<and>
   field [(''domain'', JStr ''companies'')] ''domain'' = JStr ''companies'' \<and>
   field [(''domain'', JStr ''products'')] ''domain'' = JStr ''products'' \<and>
   listTools (state (fst (callTool example_world
       (fst (callTool example_world fresh ''salesbuildr_navigate''
          (Some [(''domain'', JStr ''companies'')])))
       ''salesbuildr_navigate'' (Some [(''domain'', JStr ''products'')])))) =
     Inr [\<lparr>name = ''salesbuildr_back''\<rparr>, \<lparr>name = ''salesbuildr_products_list''\<rparr>,
          \<lparr>name = ''salesbuildr_products_get''\<rparr>]"
proof -
  have h1: "(''companies'', companyTools) \<in> set
      [(''companies'', companyTools), (''contacts'', contactTools),
       (''products'', productTools), (''opportunities'', opportunityTools),
       (''quotes'', quoteTools)]"
    by simp
  have h2: "(''products'', productTools) \<in> set
      [(''companies'', companyTools), (''contacts'', contactTools),
       (''products'', productTools), (''opportunities'', opportunityTools),
       (''quotes'', quoteTools)]"
    by simp
  have h3: "''companies'' \<noteq> ''products''"
    by simp
  have h4: "field [(''domain'', JStr ''companies'')] ''domain'' = JStr ''companies''"
    by (simp add: field_def)
  have h5: "field [(''domain'', JStr ''products'')] ''domain'' = JStr ''products''"
    by (simp add: field_def)
  show ?thesis
    using h1 h2 h3 h4 h5
      domain_switch [OF h1 h2 h3 h4 h5, of example_world example_world fresh]
    by (simp add: backTool_def productTools_def)
qed

text \<open>
  Claim C9, as amended. A navigate call whose \<open>domain\<close> argument is a registered domain
  \<open>d\<close> sets \<open>currentDomain\<close> to \<open>d\<close> and returns a success envelope (no \<open>isError\<close>) whose
  text is \<open>Navigated to d domain. Available tools:\<close> followed by the names of the tools
  of \<open>d\<close>, joined by a comma and a space, in the table's order. The back tool is not
  named.
\<close>

theorem navigate_summary:
  assumes "(d, ts) \<in> set
      [(''companies'', companyTools), (''contacts'', contactTools),
       (''products'', productTools), (''opportunities'', opportunityTools),
       (''quotes'', quoteTools)]"
    and "field a ''domain'' = JStr d"
  shows "callTool w m ''salesbuildr_navigate'' (Some a) =
           (m\<lparr>state := \<lparr>currentDomain = JStr d\<rparr>\<rparr>, [],
            Inr \<lparr>content = [TextBlock (Some (''Navigated to '' @ d @ '' domain. Available tools: '' @
                join '', '' (map name ts)))],
             isError = None\<rparr>)"
  using navigate_registered [OF getDomainTools_registered [OF assms(1)] assms(2), of w m]
  by simp

theorem navigate_summary_witness:
  "(''quotes'', quoteTools) \<in> set
      [(''companies'', companyTools), (''contacts'', contactTools),
       (''products'', productTools), (''opportunities'', opportunityTools),
       (''quotes'', quoteTools)] \<and>
   field [(''domain'', JStr ''quotes'')] ''domain'' = JStr ''quotes'' \<and>
   callTool example_world fresh ''salesbuildr_navigate'' (Some [(''domain'', JStr ''quotes'')]) =
     (fresh\<lparr>state := \<lparr>currentDomain = JStr ''quotes''\<rparr>\<rparr>, [],
      Inr \<lparr>content = [TextBlock (Some (''Navigated to quotes domain. Available tools: '' @
          ''salesbuildr_quotes_list, salesbuildr_quotes_get, salesbuildr_quotes_create''))],
       isError = None\<rparr>)"
proof -
  have h1: "(''quotes'', quoteTools) \<in> set
      [(''companies'', companyTools), (''contacts'', contactTools),
       (''products'', productTools), (''opportunities'', opportunityTools),
       (''quotes'', quoteTools)]"
    by simp
  have h2: "field [(''domain'', JStr ''quotes'')] ''domain'' = JStr ''quotes''"
    by (simp add: field_def)
  show ?thesis
    using h1 h2 navigate_summary [OF h1 h2, of example_world fresh]
    by (simp add: quoteTools_def)
qed

text \<open>
  Claim C9 as stated fails: after navigate(products) the visible tools are the back tool
  and the two product tools, but the text of the response lists the two product tools
  only; the name of the back tool does not occur in it.
\<close>

theorem navigate_summary_counterexample:
  "listTools (state (fst (callTool example_world fresh ''salesbuildr_navigate''
       (Some [(''domain'', JStr ''products'')])))) = Inr (backTool # productTools) \<and>
   snd (snd (callTool example_world fresh ''salesbuildr_navigate''
       (Some [(''domain'', JStr ''products'')]))) =
     Inr \<lparr>content = [TextBlock (Some (''Navigated to products domain. Available tools: '' @
            ''salesbuildr_products_list, salesbuildr_products_get''))],
          isError = None\<rparr> \<and>
   ''Navigated to products domain. Available tools: '' @
        ''salesbuildr_products_list, salesbuildr_products_get'' \<noteq>
   ''Navigated to products domain. Available tools: '' @
        join '', '' (map name (backTool # productTools)) \<and>
   \<not> sublist (name backTool)
       (''Navigated to products domain. Available tools: '' @
        ''salesbuildr_products_list, salesbuildr_products_get'')"
proof -
  have n: "callTool example_world fresh ''salesbuildr_navigate''
       (Some [(''domain'', JStr ''products'')]) =
     (fresh\<lparr>state := \<lparr>currentDomain = JStr ''products''\<rparr>\<rparr>, [],
      Inr \<lparr>content = [TextBlock (Some (''Navigated to products domain. Available tools: '' @
          ''salesbuildr_products_list, salesbuildr_products_get''))],
       isError = None\<rparr>)"
    by (simp add: callTool_def callTool_try_def field_def getDomainTools_def productTools_def)
  have l: "listTools \<lparr>currentDomain = JStr ''products''\<rparr> = Inr (backTool # productTools)"
    by (simp add: listTools_def getDomainTools_def)
  have d: "''Navigated to products domain. Available tools: '' @
        ''salesbuildr_products_list, salesbuildr_products_get'' \<noteq>
   ''Navigated to products domain. Available tools: '' @
        join '', '' (map name (backTool # productTools))"
    by (simp add: backTool_def productTools_def)
  have s: "\<not> sublist (name backTool)
       (''Navigated to products domain. Available tools: '' @
        ''salesbuildr_products_list, salesbuildr_products_get'')"
    unfolding backTool_def by code_simp
  from n l d s show ?thesis by simp
qed

section \<open>Identity in create and update\<close>

lemma callTool_calls:
  "fst (snd (callTool w m nm args)) = fst (snd (callTool_try w m nm args))"
  by (cases "callTool_try w m nm args") (auto simp: callTool_def split: sum.splits)

lemma delegate_calls: "fst (snd (delegate m r)) = fst (snd r)"
  by (cases r) (simp add: delegate_def)

lemma rest_without_keys: "k \<notin> fst ` set (rest_without k args)"
  by (auto simp: rest_without_def)

lemma rest_without_other: "k' \<noteq> k \<Longrightarrow> map_of (rest_without k args) k' = map_of args k'"
  by (induction args) (auto simp: rest_without_def)

lemma companies_create_calls:
  "fst (snd (handleCompanyTool w cached ''salesbuildr_companies_create'' args)) =
     (case snd (getClient w cached) of
        Inl e \<Rightarrow> []
      | Inr c \<Rightarrow> [Call Companies CreateOp [JObj (rest_without ''id'' args)]])"
proof (cases "getClient w cached")
  case (Pair c' res)
  then show ?thesis
    by (cases res) (simp_all add: handleCompanyTool_def json_reply_def)
qed

lemma companies_create_routed:
  "fst (snd (callTool w m ''salesbuildr_companies_create'' (Some args))) =
     (case snd (getClient w (cached_client m)) of
        Inl e \<Rightarrow> []
      | Inr c \<Rightarrow> [Call Companies CreateOp [JObj (rest_without ''id'' args)]])"
proof -
  have "startsWith ''salesbuildr_companies_create'' ''salesbuildr_companies_''"
    by (simp add: startsWith_def)
  then have "fst (snd (callTool w m ''salesbuildr_companies_create'' (Some args))) =
      fst (snd (handleCompanyTool w (cached_client m) ''salesbuildr_companies_create'' args))"
    by (simp add: callTool_calls dispatch_companies delegate_calls)
  then show ?thesis by (simp only: companies_create_calls)
qed

lemma contacts_create_calls:
  "fst (snd (handleContactTool w cached ''salesbuildr_contacts_create'' args)) =
     (case snd (getClient w cached) of
        Inl e \<Rightarrow> []
      | Inr c \<Rightarrow> [Call Contacts CreateOp [JObj (rest_without ''id'' args)]])"
proof (cases "getClient w cached")
  case (Pair c' res)
  then show ?thesis
    by (cases res) (simp_all add: handleContactTool_def json_reply_def)
qed

lemma contacts_create_routed:
  "fst (snd (callTool w m ''salesbuildr_contacts_create'' (Some args))) =
     (case snd (getClient w (cached_client m)) of
        Inl e \<Rightarrow> []
      | Inr c \<Rightarrow> [Call Contacts CreateOp [JObj (rest_without ''id'' args)]])"
proof -
  have "startsWith ''salesbuildr_contacts_create'' ''salesbuildr_contacts_''"
    by (simp add: startsWith_def)
  then have "fst (snd (callTool w m ''salesbuildr_contacts_create'' (Some args))) =
      fst (snd (handleContactTool w (cached_client m) ''salesbuildr_contacts_create'' args))"
    by (simp add: callTool_calls dispatch_contacts delegate_calls)
  then show ?thesis by (simp only: contacts_create_calls)
qed

lemma opportunities_create_calls:
  "fst (snd (handleOpportunityTool w cached ''salesbuildr_opportunities_create'' args)) =
     (case snd (getClient w cached) of
        Inl e \<Rightarrow> []
      | Inr c \<Rightarrow> [Call Opportunities CreateOp [JObj (rest_without ''id'' args)]])"
proof (cases "getClient w cached")
  case (Pair c' res)
  then show ?thesis
    by (cases res) (simp_all add: handleOpportunityTool_def json_reply_def)
qed

lemma opportunities_create_routed:
  "fst (snd (callTool w m ''salesbuildr_opportunities_create'' (Some args))) =
     (case snd (getClient w (cached_client m)) of
        Inl e \<Rightarrow> []
      | Inr c \<Rightarrow> [Call Opportunities CreateOp [JObj (rest_without ''id'' args)]])"
proof -
  have "startsWith ''salesbuildr_opportunities_create'' ''salesbuildr_opportunities_''"
    by (simp add: startsWith_def)
  then have "fst (snd (callTool w m ''salesbuildr_opportunities_create'' (Some args))) =
      fst (snd (handleOpportunityTool w (cached_client m) ''salesbuildr_opportunities_create'' args))"
    by (simp add: callTool_calls dispatch_opportunities delegate_calls)
  then show ?thesis by (simp only: opportunities_create_calls)
qed

lemma quotes_create_calls:
  "fst (snd (handleQuoteTool w cached ''salesbuildr_quotes_create'' args)) =
     (case snd (getClient w cached) of
        Inl e \<Rightarrow> []
      | Inr c \<Rightarrow> [Call Quotes CreateOp [JObj (rest_without ''id'' args)]])"
proof (cases "getClient w cached")
  case (Pair c' res)
  then show ?thesis
    by (cases res) (simp_all add: handleQuoteTool_def json_reply_def)
qed

lemma quotes_create_routed:
  "fst (snd (callTool w m ''salesbuildr_quotes_create'' (Some args))) =
     (case snd (getClient w (cached_client m)) of
        Inl e \<Rightarrow> []
      | Inr c \<Rightarrow> [Call Quotes CreateOp [JObj (rest_without ''id'' args)]])"
proof -
  have "startsWith ''salesbuildr_quotes_create'' ''salesbuildr_quotes_''"
    by (simp add: startsWith_def)
  then have "fst (snd (callTool w m ''salesbuildr_quotes_create'' (Some args))) =
      fst (snd (handleQuoteTool w (cached_client m) ''salesbuildr_quotes_create'' args))"
    by (simp add: callTool_calls dispatch_quotes delegate_calls)
  then show ?thesis by (simp only: quotes_create_calls)
qed

lemma create_calls:
  assumes "(nm, r) \<in> set
      [(''salesbuildr_companies_create'', Companies), (''salesbuildr_contacts_create'', Contacts),
       (''salesbuildr_opportunities_create'', Opportunities), (''salesbuildr_quotes_create'', Quotes)]"
  shows "fst (snd (callTool w m nm (Some args))) =
     (case snd (getClient w (cached_client m)) of
        Inl e \<Rightarrow> []
      | Inr c \<Rightarrow> [Call r CreateOp [JObj (rest_without ''id'' args)]])"
proof -
  from assms have
    "nm = ''salesbuildr_companies_create'' \<and> r = Companies \<or>
     nm = ''salesbuildr_contacts_create'' \<and> r = Contacts \<or>
     nm = ''salesbuildr_opportunities_create'' \<and> r = Opportunities \<or>
     nm = ''salesbuildr_quotes_create'' \<and> r = Quotes"
    by simp
  then show ?thesis
    by (elim disjE conjE)
      (simp_all only: companies_create_routed contacts_create_routed
        opportunities_create_routed quotes_create_routed)
qed

lemma companies_update_calls:
  "fst (snd (handleCompanyTool w cached ''salesbuildr_companies_update'' args)) =
     (case snd (getClient w cached) of
        Inl e \<Rightarrow> []
      | Inr c \<Rightarrow> [Call Companies UpdateOp [field args ''id'', JObj (rest_without ''id'' args)]])"
proof (cases "getClient w cached")
  case (Pair c' res)
  then show ?thesis
    by (cases res) (simp_all add: handleCompanyTool_def json_reply_def)
qed

lemma companies_update_routed:
  "fst (snd (callTool w m ''salesbuildr_companies_update'' (Some args))) =
     (case snd (getClient w (cached_client m)) of
        Inl e \<Rightarrow> []
      | Inr c \<Rightarrow> [Call Companies UpdateOp [field args ''id'', JObj (rest_without ''id'' args)]])"
proof -
  have "startsWith ''salesbuildr_companies_update'' ''salesbuildr_companies_''"
    by (simp add: startsWith_def)
  then have "fst (snd (callTool w m ''salesbuildr_companies_update'' (Some args))) =
      fst (snd (handleCompanyTool w (cached_client m) ''salesbuildr_companies_update'' args))"
    by (simp add: callTool_calls dispatch_companies delegate_calls)
  then show ?thesis by (simp only: companies_update_calls)
qed

lemma contacts_update_calls:
  "fst (snd (handleContactTool w cached ''salesbuildr_contacts_update'' args)) =
     (case snd (getClient w cached) of
        Inl e \<Rightarrow> []
      | Inr c \<Rightarrow> [Call Contacts UpdateOp [field args ''id'', JObj (rest_without ''id'' args)]])"
proof (cases "getClient w cached")
  case (Pair c' res)
  then show ?thesis
    by (cases res) (simp_all add: handleContactTool_def json_reply_def)
qed

lemma contacts_update_routed:
  "fst (snd (callTool w m ''salesbuildr_contacts_update'' (Some args))) =
     (case snd (getClient w (cached_client m)) of
        Inl e \<Rightarrow> []
      | Inr c \<Rightarrow> [Call Contacts UpdateOp [field args ''id'', JObj (rest_without ''id'' args)]])"
proof -
  have "startsWith ''salesbuildr_contacts_update'' ''salesbuildr_contacts_''"
    by (simp add: startsWith_def)
  then have "fst (snd (callTool w m ''salesbuildr_contacts_update'' (Some args))) =
      fst (snd (handleContactTool w (cached_client m) ''salesbuildr_contacts_update'' args))"
    by (simp add: callTool_calls dispatch_contacts delegate_calls)
  then show ?thesis by (simp only: contacts_update_calls)
qed

lemma opportunities_update_calls:
  "fst (snd (handleOpportunityTool w cached ''salesbuildr_opportunities_update'' args)) =
     (case snd (getClient w cached) of
        Inl e \<Rightarrow> []
      | Inr c \<Rightarrow> [Call Opportunities UpdateOp [field args ''id'', JObj (rest_without ''id'' args)]])"
proof (cases "getClient w cached")
  case (Pair c' res)
  then show ?thesis
    by (cases res) (simp_all add: handleOpportunityTool_def json_reply_def)
qed

lemma opportunities_update_routed:
  "fst (snd (callTool w m ''salesbuildr_opportunities_update'' (Some args))) =
     (case snd (getClient w (cached_client m)) of
        Inl e \<Rightarrow> []
      | Inr c \<Rightarrow> [Call Opportunities UpdateOp [field args ''id'', JObj (rest_without ''id'' args)]])"
proof -
  have "startsWith ''salesbuildr_opportunities_update'' ''salesbuildr_opportunities_''"
    by (simp add: startsWith_def)
  then have "fst (snd (callTool w m ''salesbuildr_opportunities_update'' (Some args))) =
      fst (snd (handleOpportunityTool w (cached_client m) ''salesbuildr_opportunities_update'' args))"
    by (simp add: callTool_calls dispatch_opportunities delegate_calls)
  then show ?thesis by (simp only: opportunities_update_calls)
qed

lemma update_calls:
  assumes "(nm, r) \<in> set
      [(''salesbuildr_companies_update'', Companies), (''salesbuildr_contacts_update'', Contacts),
       (''salesbuildr_opportunities_update'', Opportunities)]"
  shows "fst (snd (callTool w m nm (Some args))) =
     (case snd (getClient w (cached_client m)) of
        Inl e \<Rightarrow> []
      | Inr c \<Rightarrow> [Call r UpdateOp [field args ''id'', JObj (rest_without ''id'' args)]])"
proof -
  from assms have
    "nm = ''salesbuildr_companies_update'' \<and> r = Companies \<or>
     nm = ''salesbuildr_contacts_update'' \<and> r = Contacts \<or>
     nm = ''salesbuildr_opportunities_update'' \<and> r = Opportunities"
    by simp
  then show ?thesis
    by (elim disjE conjE)
      (simp_all only: companies_update_routed contacts_update_routed
        opportunities_update_routed)
qed

lemma example_getClient:
  "getClient example_world None = (Some example_client, Inr example_client)"
  by (simp add: getClient_def getCredentials_def example_world_def)

text \<open>
  Claim C5. A call of one of the four create tools makes no upstream call other than
  \<open>create(data)\<close> on its own resource, where \<open>data\<close> has no \<open>id\<close> key and agrees with the
  argument bag on every other key; when the client is available the call is made, and
  \<open>data\<close> is the argument bag with its \<open>id\<close> entry removed, the other entries in their
  order.
\<close>

theorem create_strips_id:
  assumes "(nm, r) \<in> set
      [(''salesbuildr_companies_create'', Companies), (''salesbuildr_contacts_create'', Contacts),
       (''salesbuildr_opportunities_create'', Opportunities), (''salesbuildr_quotes_create'', Quotes)]"
  shows "(\<forall>call \<in> set (fst (snd (callTool w m nm (Some args)))).
            \<exists>data. call = Call r CreateOp [JObj data] \<and> ''id'' \<notin> fst ` set data \<and>
              (\<forall>k. k \<noteq> ''id'' \<longrightarrow> map_of data k = map_of args k)) \<and>
         (\<forall>c. snd (getClient w (cached_client m)) = Inr c \<longrightarrow>
            fst (snd (callTool w m nm (Some args))) =
              [Call r CreateOp [JObj (filter (\<lambda>kv. fst kv \<noteq> ''id'') args)]])"
proof -
  have calls: "fst (snd (callTool w m nm (Some args))) =
     (case snd (getClient w (cached_client m)) of
        Inl e \<Rightarrow> []
      | Inr c \<Rightarrow> [Call r CreateOp [JObj (rest_without ''id'' args)]])"
    by (rule create_calls [OF assms])
  have "\<exists>data. call = Call r CreateOp [JObj data] \<and> ''id'' \<notin> fst ` set data \<and>
              (\<forall>k. k \<noteq> ''id'' \<longrightarrow> map_of data k = map_of args k)"
    if "call \<in> set (fst (snd (callTool w m nm (Some args))))" for call
  proof -
    from that calls have "call = Call r CreateOp [JObj (rest_without ''id'' args)]"
      by (auto split: sum.splits)
    then show ?thesis
      using rest_without_keys [of "''id''" args] rest_without_other [of _ "''id''" args]
      by blast
  qed
  moreover have "fst (snd (callTool w m nm (Some args))) =
              [Call r CreateOp [JObj (filter (\<lambda>kv. fst kv \<noteq> ''id'') args)]]"
    if "snd (getClient w (cached_client m)) = Inr c" for c
    using that calls by (simp add: rest_without_def)
  ultimately show ?thesis by blast
qed

theorem create_strips_id_witness:
  "(''salesbuildr_companies_create'', Companies) \<in> set
      [(''salesbuildr_companies_create'', Companies), (''salesbuildr_contacts_create'', Contacts),
       (''salesbuildr_opportunities_create'', Opportunities), (''salesbuildr_quotes_create'', Quotes)] \<and>
   snd (getClient example_world (cached_client fresh)) = Inr example_client \<and>
   fst (snd (callTool example_world fresh ''salesbuildr_companies_create''
       (Some [(''id'', JStr ''x''), (''name'', JStr ''Acme'')]))) =
     [Call Companies CreateOp [JObj [(''name'', JStr ''Acme'')]]]"
proof -
  have h: "(''salesbuildr_companies_create'', Companies) \<in> set
      [(''salesbuildr_companies_create'', Companies), (''salesbuildr_contacts_create'', Contacts),
       (''salesbuildr_opportunities_create'', Opportunities), (''salesbuildr_quotes_create'', Quotes)]"
    by simp
  have c: "snd (getClient example_world (cached_client fresh)) = Inr example_client"
    by (simp add: fresh_def example_getClient)
  from create_strips_id [OF h, of example_world fresh "[(''id'', JStr ''x''), (''name'', JStr ''Acme'')]"] c
  have "fst (snd (callTool example_world fresh ''salesbuildr_companies_create''
       (Some [(''id'', JStr ''x''), (''name'', JStr ''Acme'')]))) =
     [Call Companies CreateOp [JObj [(''name'', JStr ''Acme'')]]]"
    by simp
  with h c show ?thesis by blast
qed

text \<open>
  Claim C6. A call of one of the three update tools with an argument bag whose \<open>id\<close> is
  \<open>i\<close> makes no upstream call other than \<open>update(i, data)\<close> on its own resource: the id is
  the first argument, and \<open>data\<close> has no \<open>id\<close> key and agrees with the argument bag on
  every other key; when the client is available the call is made, and \<open>data\<close> is the
  argument bag with its \<open>id\<close> entry removed.
\<close>

theorem update_separates_id:
  assumes "(nm, r) \<in> set
      [(''salesbuildr_companies_update'', Companies), (''salesbuildr_contacts_update'', Contacts),
       (''salesbuildr_opportunities_update'', Opportunities)]"
    and "map_of args ''id'' = Some i"
  shows "(\<forall>call \<in> set (fst (snd (callTool w m nm (Some args)))).
            \<exists>data. call = Call r UpdateOp [i, JObj data] \<and> ''id'' \<notin> fst ` set data \<and>
              (\<forall>k. k \<noteq> ''id'' \<longrightarrow> map_of data k = map_of args k)) \<and>
         (\<forall>c. snd (getClient w (cached_client m)) = Inr c \<longrightarrow>
            fst (snd (callTool w m nm (Some args))) =
              [Call r UpdateOp [i, JObj (filter (\<lambda>kv. fst kv \<noteq> ''id'') args)]])"
proof -
  have i: "field args ''id'' = i"
    by (simp add: field_def assms(2))
  have calls: "fst (snd (callTool w m nm (Some args))) =
     (case snd (getClient w (cached_client m)) of
        Inl e \<Rightarrow> []
      | Inr c \<Rightarrow> [Call r UpdateOp [i, JObj (rest_without ''id'' args)]])"
    using update_calls [OF assms(1), of w m args] by (simp only: i)
  have "\<exists>data. call = Call r UpdateOp [i, JObj data] \<and> ''id'' \<notin> fst ` set data \<and>
              (\<forall>k. k \<noteq> ''id'' \<longrightarrow> map_of data k = map_of args k)"
    if "call \<in> set (fst (snd (callTool w m nm (Some args))))" for call
  proof -
    from that calls have "call = Call r UpdateOp [i, JObj (rest_without ''id'' args)]"
      by (auto split: sum.splits)
    then show ?thesis
      using rest_without_keys [of "''id''" args] rest_without_other [of _ "''id''" args]
      by blast
  qed
  moreover have "fst (snd (callTool w m nm (Some args))) =
              [Call r UpdateOp [i, JObj (filter (\<lambda>kv. fst kv \<noteq> ''id'') args)]]"
    if "snd (getClient w (cached_client m)) = Inr c" for c
    using that calls by (simp add: rest_without_def)
  ultimately show ?thesis by blast
qed

theorem update_separates_id_witness:
  "(''salesbuildr_companies_update'', Companies) \<in> set
      [(''salesbuildr_companies_update'', Companies), (''salesbuildr_contacts_update'', Contacts),
       (''salesbuildr_opportunities_update'', Opportunities)] \<and>
   map_of [(''id'', JStr ''42''), (''name'', JStr ''X'')] ''id'' = Some (JStr ''42'') \<and>
   snd (getClient example_world (cached_client fresh)) = Inr example_client \<and>
   fst (snd (callTool example_world fresh ''salesbuildr_companies_update''
       (Some [(''id'', JStr ''42''), (''name'', JStr ''X'')]))) =
     [Call Companies UpdateOp [JStr ''42'', JObj [(''name'', JStr ''X'')]]]"
proof -
  have h: "(''salesbuildr_companies_update'', Companies) \<in> set
      [(''salesbuildr_companies_update'', Companies), (''salesbuildr_contacts_update'', Contacts),
       (''salesbuildr_opportunities_update'', Opportunities)]"
    by simp
  have i: "map_of [(''id'', JStr ''42''), (''name'', JStr ''X'')] ''id'' = Some (JStr ''42'')"
    by simp
  have c: "snd (getClient example_world (cached_client fresh)) = Inr example_client"
    by (simp add: fresh_def example_getClient)
  from update_separates_id [OF h i, of example_world fresh] c
  have "fst (snd (callTool example_world fresh ''salesbuildr_companies_update''
       (Some [(''id'', JStr ''42''), (''name'', JStr ''X'')]))) =
     [Call Companies UpdateOp [JStr ''42'', JObj [(''name'', JStr ''X'')]]]"
    by simp
  with h i c show ?thesis by blast
qed

section \<open>The state invariant\<close>

lemma navigate_without_arguments:
  "callTool w m ''salesbuildr_navigate'' None =
     (m, [], Inr \<lparr>content = [TextBlock (Some (''Error: '' @
         type_error_message w (DestructureUndefined ''domain'')))], isError = Some True\<rparr>)"
  by (simp add: callTool_def callTool_try_def error_message_def)

lemma navigate_assigns:
  "currentDomain (state (fst (callTool w m ''salesbuildr_navigate'' (Some a)))) = field a ''domain''"
  by (simp add: callTool_memory callTool_try_def Let_def split: option.splits sum.splits)

lemma step_keeps_invariant:
  assumes "respects_schema (w, nm, args)" and "domain_or_null (state m)"
  shows "domain_or_null (state (fst (callTool w m nm args)))"
proof (cases "nm = ''salesbuildr_navigate''")
  case True
  show ?thesis
  proof (cases args)
    case None
    with True assms(2) show ?thesis by (simp add: navigate_without_arguments)
  next
    case (Some a)
    with True assms(1) have "field a ''domain'' \<in> JStr ` set domains" by simp
    with True Some show ?thesis by (simp add: domain_or_null_def navigate_assigns)
  qed
next
  case False
  show ?thesis
  proof (cases "nm = ''salesbuildr_back''")
    case True
    then show ?thesis by (simp add: back_result domain_or_null_def)
  next
    case b: False
    from other_tools_keep_state [OF False b] assms(2) show ?thesis by simp
  qed
qed

lemma run_keeps_invariant:
  assumes "\<forall>r \<in> set rs. respects_schema r" and "domain_or_null (state m)"
  shows "domain_or_null (state (run m rs))"
  using assms
proof (induction rs arbitrary: m)
  case Nil
  then show ?case by simp
next
  case (Cons r rs)
  obtain w nm args where r: "r = (w, nm, args)" by (cases r)
  from Cons.prems have "respects_schema (w, nm, args)" by (simp add: r)
  then have "domain_or_null (state (fst (callTool w m nm args)))"
    using Cons.prems(2) by (rule step_keeps_invariant)
  moreover from Cons.prems have "\<forall>r \<in> set rs. respects_schema r" by simp
  ultimately have "domain_or_null (state (run (fst (callTool w m nm args)) rs))"
    by (rule Cons.IH [rotated])
  then show ?case by (simp add: r)
qed

text \<open>
  Claim C1, as amended. In a session that starts fresh and in which every request
  respects the navigation schema (a navigate call with an argument bag carries a
  \<open>domain\<close> that is one of the five identifiers), \<open>currentDomain\<close> is \<open>null\<close> or one of the
  five identifiers after every request of the session.
\<close>

theorem currentDomain_invariant:
  assumes "\<forall>r \<in> set rs. respects_schema r"
  shows "\<forall>k \<le> length rs. domain_or_null (state (run fresh (take k rs)))"
proof (intro allI impI)
  fix k
  have "\<forall>r \<in> set (take k rs). respects_schema r"
    using assms by (meson in_set_takeD)
  moreover have "domain_or_null (state fresh)"
    by (simp add: fresh_def initial_state_def domain_or_null_def)
  ultimately show "domain_or_null (state (run fresh (take k rs)))"
    by (rule run_keeps_invariant)
qed

theorem currentDomain_invariant_witness:
  "respects_schema (example_world, ''salesbuildr_navigate'', Some [(''domain'', JStr ''quotes'')]) \<and>
   respects_schema (keyless_world, ''salesbuildr_quotes_get'', Some [(''id'', JStr ''7'')]) \<and>
   respects_schema (example_world, ''salesbuildr_navigate'', None) \<and>
   domain_or_null (state (run fresh
     [(example_world, ''salesbuildr_navigate'', Some [(''domain'', JStr ''quotes'')]),
      (keyless_world, ''salesbuildr_quotes_get'', Some [(''id'', JStr ''7'')]),
      (example_world, ''salesbuildr_navigate'', None)]))"
proof -
  let ?rs = "[(example_world, ''salesbuildr_navigate'', Some [(''domain'', JStr ''quotes'')]),
                 (keyless_world, ''salesbuildr_quotes_get'', Some [(''id'', JStr ''7'')]),
                 (example_world, ''salesbuildr_navigate'', None)]"
  have h1: "respects_schema
      (example_world, ''salesbuildr_navigate'', Some [(''domain'', JStr ''quotes'')])"
    by (simp add: field_def domains_def)
  have h2: "respects_schema
      (keyless_world, ''salesbuildr_quotes_get'', Some [(''id'', JStr ''7'')])"
    by simp
  have h3: "respects_schema (example_world, ''salesbuildr_navigate'', None)"
    by simp
  from h1 h2 h3 have h: "\<forall>r \<in> set ?rs. respects_schema r"
    by simp
  have t: "take 3 ?rs = ?rs"
    by simp
  have l: "3 \<le> length ?rs"
    by simp
  from currentDomain_invariant [OF h] l
  have "domain_or_null (state (run fresh (take 3 ?rs)))"
    by blast
  then have "domain_or_null (state (run fresh ?rs))"
    by (simp only: t)
  with h1 h2 h3 show ?thesis by blast
qed

text \<open>
  Claim C1 as stated fails: the navigate branch assigns \<open>args.domain\<close> to
  \<open>currentDomain\<close> before anything looks at it. After navigate with the domain
  \<open>billing\<close>, which is not registered, \<open>currentDomain\<close> is the string \<open>billing\<close>.
\<close>

theorem currentDomain_counterexample:
  "currentDomain (state (run fresh
      [(example_world, ''salesbuildr_navigate'', Some [(''domain'', JStr ''billing'')])])) =
     JStr ''billing'' \<and>
   JStr ''billing'' \<noteq> JNull \<and> ''billing'' \<notin> set domains \<and>
   \<not> domain_or_null (state (run fresh
      [(example_world, ''salesbuildr_navigate'', Some [(''domain'', JStr ''billing'')])]))"
  by (simp add: navigate_assigns field_def domains_def domain_or_null_def)

section \<open>The shape of every response\<close>

lemma json_reply_shape:
  "snd (json_reply w c call) = Inr r \<Longrightarrow> (\<exists>t. content r = [TextBlock t]) \<and> isError r = None"
  by (auto simp: json_reply_def split: sum.splits)

lemma delete_reply_shape:
  "snd (delete_reply c res noun ident) = Inr r \<Longrightarrow>
   (\<exists>t. content r = [TextBlock t]) \<and> isError r = None"
  by (auto simp: delete_reply_def split: sum.splits)

lemma companies_shape:
  assumes "snd (snd (handleCompanyTool w cached nm args)) = Inr r"
  shows "(\<exists>t. content r = [TextBlock t]) \<and>
         isError r = (if nm \<in> set (map name companyTools) then None else Some True) \<and>
         (nm \<notin> set (map name companyTools) \<longrightarrow>
            (\<exists>t. content r = [TextBlock (Some t)] \<and> sublist nm t))"
proof (cases "getClient w cached")
  case (Pair c' res)
  show ?thesis
  proof (cases res)
    case (Inl e)
    with Pair assms show ?thesis by (simp add: handleCompanyTool_def)
  next
    case (Inr c)
    with Pair assms show ?thesis
      by (auto simp: handleCompanyTool_def companyTools_def sublist_Cons_right
          dest: json_reply_shape delete_reply_shape split: if_splits)
  qed
qed

lemma companies_table_prefix:
  "nm \<in> set (map name companyTools) \<Longrightarrow> startsWith nm ''salesbuildr_companies_''"
  by (auto simp: companyTools_def startsWith_def)

lemma contacts_shape:
  assumes "snd (snd (handleContactTool w cached nm args)) = Inr r"
  shows "(\<exists>t. content r = [TextBlock t]) \<and>
         isError r = (if nm \<in> set (map name contactTools) then None else Some True) \<and>
         (nm \<notin> set (map name contactTools) \<longrightarrow>
            (\<exists>t. content r = [TextBlock (Some t)] \<and> sublist nm t))"
proof (cases "getClient w cached")
  case (Pair c' res)
  show ?thesis
  proof (cases res)
    case (Inl e)
    with Pair assms show ?thesis by (simp add: handleContactTool_def)
  next
    case (Inr c)
    with Pair assms show ?thesis
      by (auto simp: handleContactTool_def contactTools_def sublist_Cons_right
          dest: json_reply_shape delete_reply_shape split: if_splits)
  qed
qed

lemma contacts_table_prefix:
  "nm \<in> set (map name contactTools) \<Longrightarrow> startsWith nm ''salesbuildr_contacts_''"
  by (auto simp: contactTools_def startsWith_def)

lemma products_shape:
  assumes "snd (snd (handleProductTool w cached nm args)) = Inr r"
  shows "(\<exists>t. content r = [TextBlock t]) \<and>
         isError r = (if nm \<in> set (map name productTools) then None else Some True) \<and>
         (nm \<notin> set (map name productTools) \<longrightarrow>
            (\<exists>t. content r = [TextBlock (Some t)] \<and> sublist nm t))"
proof (cases "getClient w cached")
  case (Pair c' res)
  show ?thesis
  proof (cases res)
    case (Inl e)
    with Pair assms show ?thesis by (simp add: handleProductTool_def)
  next
    case (Inr c)
    with Pair assms show ?thesis
      by (auto simp: handleProductTool_def productTools_def sublist_Cons_right
          dest: json_reply_shape delete_reply_shape split: if_splits)
  qed
qed

lemma products_table_prefix:
  "nm \<in> set (map name productTools) \<Longrightarrow> startsWith nm ''salesbuildr_products_''"
  by (auto simp: productTools_def startsWith_def)

lemma opportunities_shape:
  assumes "snd (snd (handleOpportunityTool w cached nm args)) = Inr r"
  shows "(\<exists>t. content r = [TextBlock t]) \<and>
         isError r = (if nm \<in> set (map name opportunityTools) then None else Some True) \<and>
         (nm \<notin> set (map name opportunityTools) \<longrightarrow>
            (\<exists>t. content r = [TextBlock (Some t)] \<and> sublist nm t))"
proof (cases "getClient w cached")
  case (Pair c' res)
  show ?thesis
  proof (cases res)
    case (Inl e)
    with Pair assms show ?thesis by (simp add: handleOpportunityTool_def)
  next
    case (Inr c)
    with Pair assms show ?thesis
      by (auto simp: handleOpportunityTool_def opportunityTools_def sublist_Cons_right
          dest: json_reply_shape delete_reply_shape split: if_splits)
  qed
qed

lemma opportunities_table_prefix:
  "nm \<in> set (map name opportunityTools) \<Longrightarrow> startsWith nm ''salesbuildr_opportunities_''"
  by (auto simp: opportunityTools_def startsWith_def)

lemma quotes_shape:
  assumes "snd (snd (handleQuoteTool w cached nm args)) = Inr r"
  shows "(\<exists>t. content r = [TextBlock t]) \<and>
         isError r = (if nm \<in> set (map name quoteTools) then None else Some True) \<and>
         (nm \<notin> set (map name quoteTools) \<longrightarrow>
            (\<exists>t. content r = [TextBlock (Some t)] \<and> sublist nm t))"
proof (cases "getClient w cached")
  case (Pair c' res)
  show ?thesis
  proof (cases res)
    case (Inl e)
    with Pair assms show ?thesis by (simp add: handleQuoteTool_def)
  next
    case (Inr c)
    with Pair assms show ?thesis
      by (auto simp: handleQuoteTool_def quoteTools_def sublist_Cons_right
          dest: json_reply_shape delete_reply_shape split: if_splits)
  qed
qed

lemma quotes_table_prefix:
  "nm \<in> set (map name quoteTools) \<Longrightarrow> startsWith nm ''salesbuildr_quotes_''"
  by (auto simp: quoteTools_def startsWith_def)

lemma registered_cases:
  "nm \<in> set registered_names \<longleftrightarrow>
     nm = ''salesbuildr_navigate'' \<or> nm = ''salesbuildr_back'' \<or>
     nm \<in> set (map name companyTools) \<or> nm \<in> set (map name contactTools) \<or>
     nm \<in> set (map name productTools) \<or> nm \<in> set (map name opportunityTools) \<or>
     nm \<in> set (map name quoteTools)"
  by (simp add: registered_names_def navigateTool_def backTool_def)

lemma companies_registered:
  assumes "startsWith nm ''salesbuildr_companies_''"
  shows "nm \<in> set registered_names \<longleftrightarrow> nm \<in> set (map name companyTools)"
proof -
  have "nm \<noteq> ''salesbuildr_navigate''" "nm \<noteq> ''salesbuildr_back''"
    by (rule startsWith_neq [OF assms], simp)+
  moreover have "nm \<notin> set (map name contactTools)"
  proof
    assume "nm \<in> set (map name contactTools)"
    then have "startsWith nm ''salesbuildr_contacts_''" by (rule contacts_table_prefix)
    moreover have "\<not> startsWith nm ''salesbuildr_contacts_''"
      by (rule startsWith_other [OF assms]; simp)
    ultimately show False by contradiction
  qed
  moreover have "nm \<notin> set (map name productTools)"
  proof
    assume "nm \<in> set (map name productTools)"
    then have "startsWith nm ''salesbuildr_products_''" by (rule products_table_prefix)
    moreover have "\<not> startsWith nm ''salesbuildr_products_''"
      by (rule startsWith_other [OF assms]; simp)
    ultimately show False by contradiction
  qed
  moreover have "nm \<notin> set (map name opportunityTools)"
  proof
    assume "nm \<in> set (map name opportunityTools)"
    then have "startsWith nm ''salesbuildr_opportunities_''" by (rule opportunities_table_prefix)
    moreover have "\<not> startsWith nm ''salesbuildr_opportunities_''"
      by (rule startsWith_other [OF assms]; simp)
    ultimately show False by contradiction
  qed
  moreover have "nm \<notin> set (map name quoteTools)"
  proof
    assume "nm \<in> set (map name quoteTools)"
    then have "startsWith nm ''salesbuildr_quotes_''" by (rule quotes_table_prefix)
    moreover have "\<not> startsWith nm ''salesbuildr_quotes_''"
      by (rule startsWith_other [OF assms]; simp)
    ultimately show False by contradiction
  qed
  ultimately show ?thesis by (simp add: registered_cases)
qed

lemma contacts_registered:
  assumes "startsWith nm ''salesbuildr_contacts_''"
  shows "nm \<in> set registered_names \<longleftrightarrow> nm \<in> set (map name contactTools)"
proof -
  have "nm \<noteq> ''salesbuildr_navigate''" "nm \<noteq> ''salesbuildr_back''"
    by (rule startsWith_neq [OF assms], simp)+
  moreover have "nm \<notin> set (map name companyTools)"
  proof
    assume "nm \<in> set (map name companyTools)"
    then have "startsWith nm ''salesbuildr_companies_''" by (rule companies_table_prefix)
    moreover have "\<not> startsWith nm ''salesbuildr_companies_''"
      by (rule startsWith_other [OF assms]; simp)
    ultimately show False by contradiction
  qed
  moreover have "nm \<notin> set (map name productTools)"
  proof
    assume "nm \<in> set (map name productTools)"
    then have "startsWith nm ''salesbuildr_products_''" by (rule products_table_prefix)
    moreover have "\<not> startsWith nm ''salesbuildr_products_''"
      by (rule startsWith_other [OF assms]; simp)
    ultimately show False by contradiction
  qed
  moreover have "nm \<notin> set (map name opportunityTools)"
  proof
    assume "nm \<in> set (map name opportunityTools)"
    then have "startsWith nm ''salesbuildr_opportunities_''" by (rule opportunities_table_prefix)
    moreover have "\<not> startsWith nm ''salesbuildr_opportunities_''"
      by (rule startsWith_other [OF assms]; simp)
    ultimately show False by contradiction
  qed
  moreover have "nm \<notin> set (map name quoteTools)"
  proof
    assume "nm \<in> set (map name quoteTools)"
    then have "startsWith nm ''salesbuildr_quotes_''" by (rule quotes_table_prefix)
    moreover have "\<not> startsWith nm ''salesbuildr_quotes_''"
      by (rule startsWith_other [OF assms]; simp)
    ultimately show False by contradiction
  qed
  ultimately show ?thesis by (simp add: registered_cases)
qed

lemma products_registered:
  assumes "startsWith nm ''salesbuildr_products_''"
  shows "nm \<in> set registered_names \<longleftrightarrow> nm \<in> set (map name productTools)"
proof -
  have "nm \<noteq> ''salesbuildr_navigate''" "nm \<noteq> ''salesbuildr_back''"
    by (rule startsWith_neq [OF assms], simp)+
  moreover have "nm \<notin> set (map name companyTools)"
  proof
    assume "nm \<in> set (map name companyTools)"
    then have "startsWith nm ''salesbuildr_companies_''" by (rule companies_table_prefix)
    moreover have "\<not> startsWith nm ''salesbuildr_companies_''"
      by (rule startsWith_other [OF assms]; simp)
    ultimately show False by contradiction
  qed
  moreover have "nm \<notin> set (map name contactTools)"
  proof
    assume "nm \<in> set (map name contactTools)"
    then have "startsWith nm ''salesbuildr_contacts_''" by (rule contacts_table_prefix)
    moreover have "\<not> startsWith nm ''salesbuildr_contacts_''"
      by (rule startsWith_other [OF assms]; simp)
    ultimately show False by contradiction
  qed
  moreover have "nm \<notin> set (map name opportunityTools)"
  proof
    assume "nm \<in> set (map name opportunityTools)"
    then have "startsWith nm ''salesbuildr_opportunities_''" by (rule opportunities_table_prefix)
    moreover have "\<not> startsWith nm ''salesbuildr_opportunities_''"
      by (rule startsWith_other [OF assms]; simp)
    ultimately show False by contradiction
  qed
  moreover have "nm \<notin> set (map name quoteTools)"
  proof
    assume "nm \<in> set (map name quoteTools)"
    then have "startsWith nm ''salesbuildr_quotes_''" by (rule quotes_table_prefix)
    moreover have "\<not> startsWith nm ''salesbuildr_quotes_''"
      by (rule startsWith_other [OF assms]; simp)
    ultimately show False by contradiction
  qed
  ultimately show ?thesis by (simp add: registered_cases)
qed

lemma opportunities_registered:
  assumes "startsWith nm ''salesbuildr_opportunities_''"
  shows "nm \<in> set registered_names \<longleftrightarrow> nm \<in> set (map name opportunityTools)"
proof -
  have "nm \<noteq> ''salesbuildr_navigate''" "nm \<noteq> ''salesbuildr_back''"
    by (rule startsWith_neq [OF assms], simp)+
  moreover have "nm \<notin> set (map name companyTools)"
  proof
    assume "nm \<in> set (map name companyTools)"
    then have "startsWith nm ''salesbuildr_companies_''" by (rule companies_table_prefix)
    moreover have "\<not> startsWith nm ''salesbuildr_companies_''"
      by (rule startsWith_other [OF assms]; simp)
    ultimately show False by contradiction
  qed
  moreover have "nm \<notin> set (map name contactTools)"
  proof
    assume "nm \<in> set (map name contactTools)"
    then have "startsWith nm ''salesbuildr_contacts_''" by (rule contacts_table_prefix)
    moreover have "\<not> startsWith nm ''salesbuildr_contacts_''"
      by (rule startsWith_other [OF assms]; simp)
    ultimately show False by contradiction
  qed
  moreover have "nm \<notin> set (map name productTools)"
  proof
    assume "nm \<in> set (map name productTools)"
    then have "startsWith nm ''salesbuildr_products_''" by (rule products_table_prefix)
    moreover have "\<not> startsWith nm ''salesbuildr_products_''"
      by (rule startsWith_other [OF assms]; simp)
    ultimately show False by contradiction
  qed
  moreover have "nm \<notin> set (map name quoteTools)"
  proof
    assume "nm \<in> set (map name quoteTools)"
    then have "startsWith nm ''salesbuildr_quotes_''" by (rule quotes_table_prefix)
    moreover have "\<not> startsWith nm ''salesbuildr_quotes_''"
      by (rule startsWith_other [OF assms]; simp)
    ultimately show False by contradiction
  qed
  ultimately show ?thesis by (simp add: registered_cases)
qed

lemma quotes_registered:
  assumes "startsWith nm ''salesbuildr_quotes_''"
  shows "nm \<in> set registered_names \<longleftrightarrow> nm \<in> set (map name quoteTools)"
proof -
  have "nm \<noteq> ''salesbuildr_navigate''" "nm \<noteq> ''salesbuildr_back''"
    by (rule startsWith_neq [OF assms], simp)+
  moreover have "nm \<notin> set (map name companyTools)"
  proof
    assume "nm \<in> set (map name companyTools)"
    then have "startsWith nm ''salesbuildr_companies_''" by (rule companies_table_prefix)
    moreover have "\<not> startsWith nm ''salesbuildr_companies_''"
      by (rule startsWith_other [OF assms]; simp)
    ultimately show False by contradiction
  qed
  moreover have "nm \<notin> set (map name contactTools)"
  proof
    assume "nm \<in> set (map name contactTools)"
    then have "startsWith nm ''salesbuildr_contacts_''" by (rule contacts_table_prefix)
    moreover have "\<not> startsWith nm ''salesbuildr_contacts_''"
      by (rule startsWith_other [OF assms]; simp)
    ultimately show False by contradiction
  qed
  moreover have "nm \<notin> set (map name productTools)"
  proof
    assume "nm \<in> set (map name productTools)"
    then have "startsWith nm ''salesbuildr_products_''" by (rule products_table_prefix)
    moreover have "\<not> startsWith nm ''salesbuildr_products_''"
      by (rule startsWith_other [OF assms]; simp)
    ultimately show False by contradiction
  qed
  moreover have "nm \<notin> set (map name opportunityTools)"
  proof
    assume "nm \<in> set (map name opportunityTools)"
    then have "startsWith nm ''salesbuildr_opportunities_''" by (rule opportunities_table_prefix)
    moreover have "\<not> startsWith nm ''salesbuildr_opportunities_''"
      by (rule startsWith_other [OF assms]; simp)
    ultimately show False by contradiction
  qed
  ultimately show ?thesis by (simp add: registered_cases)
qed

lemma unprefixed_unregistered:
  assumes "nm \<noteq> ''salesbuildr_navigate''" and "nm \<noteq> ''salesbuildr_back''"
    and "\<not> startsWith nm ''salesbuildr_companies_''"
    and "\<not> startsWith nm ''salesbuildr_contacts_''"
    and "\<not> startsWith nm ''salesbuildr_products_''"
    and "\<not> startsWith nm ''salesbuildr_opportunities_''"
    and "\<not> startsWith nm ''salesbuildr_quotes_''"
  shows "nm \<notin> set registered_names"
  using assms companies_table_prefix contacts_table_prefix products_table_prefix
    opportunities_table_prefix quotes_table_prefix
  unfolding registered_cases by blast

lemma delegate_result: "snd (snd (delegate m r)) = snd (snd r)"
  by (cases r) (simp add: delegate_def)

text \<open>
  What the \<open>try\<close> block returns, when it returns: one text block; no \<open>isError\<close> when the
  name is that of a registered tool, and otherwise \<open>isError: true\<close> with a text that
  contains the name.
\<close>

lemma try_shape:
  assumes "snd (snd (callTool_try w m nm args)) = Inr r"
  shows "(\<exists>t. content r = [TextBlock t]) \<and>
         isError r = (if nm \<in> set registered_names then None else Some True) \<and>
         (nm \<notin> set registered_names \<longrightarrow>
            (\<exists>t. content r = [TextBlock (Some t)] \<and> sublist nm t))"
proof -
  consider (navigate) "nm = ''salesbuildr_navigate''" | (goback) "nm = ''salesbuildr_back''"
    | (companies) "startsWith nm ''salesbuildr_companies_''"
    | (contacts) "startsWith nm ''salesbuildr_contacts_''"
    | (products) "startsWith nm ''salesbuildr_products_''"
    | (opportunities) "startsWith nm ''salesbuildr_opportunities_''"
    | (quotes) "startsWith nm ''salesbuildr_quotes_''"
    | (unknown) "nm \<noteq> ''salesbuildr_navigate''" "nm \<noteq> ''salesbuildr_back''"
        "\<not> startsWith nm ''salesbuildr_companies_''"
        "\<not> startsWith nm ''salesbuildr_contacts_''"
        "\<not> startsWith nm ''salesbuildr_products_''"
        "\<not> startsWith nm ''salesbuildr_opportunities_''"
        "\<not> startsWith nm ''salesbuildr_quotes_''"
    by blast
  then show ?thesis
  proof cases
    case navigate
    have "nm \<in> set registered_names" by (simp add: navigate registered_cases)
    moreover from assms have "(\<exists>t. content r = [TextBlock t]) \<and> isError r = None"
      by (auto simp: navigate callTool_try_def Let_def split: option.splits sum.splits)
    ultimately show ?thesis by simp
  next
    case goback
    have "nm \<in> set registered_names" by (simp add: goback registered_cases)
    moreover from assms have "(\<exists>t. content r = [TextBlock t]) \<and> isError r = None"
      by (auto simp: goback callTool_try_def)
    ultimately show ?thesis by simp
  next
    case companies
    with assms show ?thesis
      by (simp only: dispatch_companies delegate_result companies_registered)
        (rule companies_shape)
  next
    case contacts
    with assms show ?thesis
      by (simp only: dispatch_contacts delegate_result contacts_registered)
        (rule contacts_shape)
  next
    case products
    with assms show ?thesis
      by (simp only: dispatch_products delegate_result products_registered)
        (rule products_shape)
  next
    case opportunities
    with assms show ?thesis
      by (simp only: dispatch_opportunities delegate_result opportunities_registered)
        (rule opportunities_shape)
  next
    case quotes
    with assms show ?thesis
      by (simp only: dispatch_quotes delegate_result quotes_registered)
        (rule quotes_shape)
  next
    case unknown
    have u: "nm \<notin> set registered_names"
      by (rule unprefixed_unregistered [OF unknown])
    from assms unknown have "r = \<lparr>content = [TextBlock (Some (''Unknown tool: '' @ nm @
          ''. Use salesbuildr_navigate to select a domain first.''))], isError = Some True\<rparr>"
      by (simp add: callTool_try_def)
    then show ?thesis using u by (simp add: sublist_Cons_right sublist_append)
  qed
qed

text \<open>
  The \<open>catch\<close> block throws only on a thrown value that is not an \<open>Error\<close> and that
  \<open>String\<close> cannot convert.
\<close>

lemma error_message_throws:
  "error_message w e = Inl e' \<Longrightarrow> \<exists>v. e = NonError v \<and> toString v = Inl e'"
  by (cases e) (simp_all add: error_message_def)

text \<open>
  The three outcomes of a call-tool request. What the \<open>try\<close> block returns is returned.
  What it throws is answered by the envelope \<open>Error: message\<close> with \<open>isError: true\<close>, as
  long as the message can be computed. Otherwise the handler rejects.
\<close>

lemma callTool_result:
  "snd (snd (callTool w m nm args)) =
     (case snd (snd (callTool_try w m nm args)) of
        Inr response \<Rightarrow> Inr response
      | Inl e \<Rightarrow>
          (case error_message w e of
             Inl e' \<Rightarrow> Inl e'
           | Inr message \<Rightarrow>
               Inr \<lparr>content = [TextBlock (Some (''Error: '' @ message))],
                    isError = Some True\<rparr>))"
  by (cases "callTool_try w m nm args") (auto simp: callTool_def split: sum.splits)

lemma callTool_outcome:
  "(\<forall>r. snd (snd (callTool_try w m nm args)) = Inr r \<longrightarrow>
      snd (snd (callTool w m nm args)) = Inr r \<and>
      (\<exists>t. content r = [TextBlock t]) \<and>
      isError r = (if nm \<in> set registered_names then None else Some True)) \<and>
   (\<forall>e message. snd (snd (callTool_try w m nm args)) = Inl e \<longrightarrow>
      error_message w e = Inr message \<longrightarrow>
      snd (snd (callTool w m nm args)) =
        Inr \<lparr>content = [TextBlock (Some (''Error: '' @ message))], isError = Some True\<rparr>) \<and>
   (\<forall>e e'. snd (snd (callTool_try w m nm args)) = Inl e \<longrightarrow>
      error_message w e = Inl e' \<longrightarrow>
      snd (snd (callTool w m nm args)) = Inl e')"
proof -
  have "snd (snd (callTool w m nm args)) = Inr r \<and>
      (\<exists>t. content r = [TextBlock t]) \<and>
      isError r = (if nm \<in> set registered_names then None else Some True)"
    if "snd (snd (callTool_try w m nm args)) = Inr r" for r
    using that try_shape [OF that] by (simp add: callTool_result)
  moreover have "snd (snd (callTool w m nm args)) =
        Inr \<lparr>content = [TextBlock (Some (''Error: '' @ message))], isError = Some True\<rparr>"
    if "snd (snd (callTool_try w m nm args)) = Inl e" "error_message w e = Inr message"
    for e message
    using that by (simp add: callTool_result)
  moreover have "snd (snd (callTool w m nm args)) = Inl e'"
    if "snd (snd (callTool_try w m nm args)) = Inl e" "error_message w e = Inl e'" for e e'
    using that by (simp add: callTool_result)
  ultimately show ?thesis by blast
qed

text \<open>
  A rejection of the upstream client reaches the \<open>catch\<close> block: when \<open>client.quotes.get\<close>
  rejects with an \<open>Error\<close>, the answer to \<open>salesbuildr_quotes_get\<close> is the error envelope
  with that error's message.
\<close>

lemma quotes_get_upstream_error:
  assumes "getClient w (cached_client m) = (cached', Inr c)"
    and "c (Call Quotes GetOp [field args ''id'']) = Inl (Error msg)"
  shows "callTool w m ''salesbuildr_quotes_get'' (Some args) =
           (m\<lparr>cached_client := cached'\<rparr>, [Call Quotes GetOp [field args ''id'']],
            Inr \<lparr>content = [TextBlock (Some (''Error: '' @ msg))], isError = Some True\<rparr>)"
proof -
  have p: "startsWith ''salesbuildr_quotes_get'' ''salesbuildr_quotes_''"
    by (simp add: startsWith_def)
  have "callTool_try w m ''salesbuildr_quotes_get'' (Some args) =
      (m\<lparr>cached_client := cached'\<rparr>, [Call Quotes GetOp [field args ''id'']], Inl (Error msg))"
    using assms
    by (simp add: dispatch_quotes [OF p] delegate_def handleQuoteTool_def json_reply_def)
  then show ?thesis
    by (simp add: callTool_def error_message_def)
qed

text \<open>
  The delete cases convert the id to a string after the upstream call: with the id
  \<open>{toString: "x"}\<close> the company is deleted upstream, the template literal throws, and
  the answer is an error envelope. A rejection of the upstream delete is thrown on.
\<close>

lemma delete_with_unconvertible_id:
  "callTool example_world fresh ''salesbuildr_companies_delete''
       (Some [(''id'', JObj [(''toString'', JStr ''x'')])]) =
     (fresh\<lparr>cached_client := Some example_client\<rparr>,
      [Call Companies DeleteOp [JObj [(''toString'', JStr ''x'')]]],
      Inr \<lparr>content = [TextBlock (Some ''Error: Cannot convert object to primitive value'')],
           isError = Some True\<rparr>)"
proof -
  have p: "startsWith ''salesbuildr_companies_delete'' ''salesbuildr_companies_''"
    by (simp add: startsWith_def)
  have "callTool_try example_world fresh ''salesbuildr_companies_delete''
       (Some [(''id'', JObj [(''toString'', JStr ''x'')])]) =
     (fresh\<lparr>cached_client := Some example_client\<rparr>,
      [Call Companies DeleteOp [JObj [(''toString'', JStr ''x'')]]],
      Inl (TypeError CannotConvertToPrimitive))"
    by (simp add: dispatch_companies [OF p] delegate_def handleCompanyTool_def getClient_def
        getCredentials_def example_world_def fresh_def delete_reply_def example_client_def
        field_def)
  then show ?thesis
    by (simp add: callTool_def error_message_def example_world_def)
qed

lemma delete_upstream_error:
  assumes "getClient w (cached_client m) = (cached', Inr c)"
    and "c (Call Contacts DeleteOp [field args ''id'']) = Inl (Error msg)"
  shows "callTool w m ''salesbuildr_contacts_delete'' (Some args) =
           (m\<lparr>cached_client := cached'\<rparr>, [Call Contacts DeleteOp [field args ''id'']],
            Inr \<lparr>content = [TextBlock (Some (''Error: '' @ msg))], isError = Some True\<rparr>)"
proof -
  have p: "startsWith ''salesbuildr_contacts_delete'' ''salesbuildr_contacts_''"
    by (simp add: startsWith_def)
  have "callTool_try w m ''salesbuildr_contacts_delete'' (Some args) =
      (m\<lparr>cached_client := cached'\<rparr>, [Call Contacts DeleteOp [field args ''id'']],
       Inl (Error msg))"
    using assms
    by (simp add: dispatch_contacts [OF p] delegate_def handleContactTool_def delete_reply_def)
  then show ?thesis
    by (simp add: callTool_def error_message_def)
qed

text \<open>
  Claim C2 fails on the code. The claim: for every call-tool request the router returns
  an envelope and never raises past its boundary, a failure giving \<open>isError: true\<close> with
  the failure's message. The code at this input: the request \<open>salesbuildr_quotes_get\<close>
  with arguments \<open>{id: "7"}\<close>, while \<open>client.quotes.get\<close> rejects with the plain object
  \<open>{toString: "x"}\<close>. The \<open>try\<close> block throws that object; in the \<open>catch\<close> block it is not
  an \<open>Error\<close>, so \<open>String(error)\<close> is evaluated and throws a \<open>TypeError\<close>; the handler
  rejects with it and returns no envelope.
\<close>

theorem callTool_rejects:
  "snd (snd (callTool_try rejecting_world fresh ''salesbuildr_quotes_get''
       (Some [(''id'', JStr ''7'')]))) =
     Inl (NonError (JObj [(''toString'', JStr ''x'')])) \<and>
   error_message rejecting_world (NonError (JObj [(''toString'', JStr ''x'')])) =
     Inl (TypeError CannotConvertToPrimitive) \<and>
   callTool rejecting_world fresh ''salesbuildr_quotes_get'' (Some [(''id'', JStr ''7'')]) =
     (fresh\<lparr>cached_client := Some rejecting_client\<rparr>,
      [Call Quotes GetOp [JStr ''7'']],
      Inl (TypeError CannotConvertToPrimitive))"
proof -
  have p: "startsWith ''salesbuildr_quotes_get'' ''salesbuildr_quotes_''"
    by (simp add: startsWith_def)
  have t: "callTool_try rejecting_world fresh ''salesbuildr_quotes_get''
       (Some [(''id'', JStr ''7'')]) =
     (fresh\<lparr>cached_client := Some rejecting_client\<rparr>,
      [Call Quotes GetOp [JStr ''7'']],
      Inl (NonError (JObj [(''toString'', JStr ''x'')])))"
    by (simp add: dispatch_quotes [OF p] delegate_def handleQuoteTool_def getClient_def
        getCredentials_def rejecting_world_def example_world_def fresh_def json_reply_def
        rejecting_client_def field_def)
  have e: "error_message rejecting_world (NonError (JObj [(''toString'', JStr ''x'')])) =
     Inl (TypeError CannotConvertToPrimitive)"
    by (simp add: error_message_def)
  from t e show ?thesis
    by (simp add: callTool_def)
qed

end
